theory Spec2Isabelle
  imports Main
begin

section \<open>JavaScript strings\<close>

text \<open>
  A string is the list of the bytes of its UTF-8 encoding. The builtins
  \<open>String.prototype.toLowerCase\<close> and \<open>String.prototype.trim\<close> rest on the case mappings and
  the white-space classes of Unicode; the model takes both as parameters, the fields
  \<open>toLowerCase\<close> and \<open>trim\<close> of the environment below, and every general statement holds
  whatever they are.

  The functions defined here are the two builtins on 7-bit text only, where lower-casing
  folds the letters A-Z and trimming strips TAB, LF, VT, FF, CR and SP at both ends. They
  serve the concrete scenarios, whose strings are all 7-bit.
\<close>

definition asciiWhiteSpace :: "char \<Rightarrow> bool" where
  "asciiWhiteSpace c = (of_char c \<in> {9, 10, 11, 12, 13, 32 :: nat})"

definition asciiLowerChar :: "char \<Rightarrow> char" where
  "asciiLowerChar c =
     (if 65 \<le> (of_char c :: nat) \<and> (of_char c :: nat) \<le> 90
      then char_of (of_char c + 32 :: nat) else c)"

definition asciiToLowerCase :: "string \<Rightarrow> string" where
  "asciiToLowerCase s = map asciiLowerChar s"

definition asciiTrim :: "string \<Rightarrow> string" where
  "asciiTrim s = rev (dropWhile asciiWhiteSpace (rev (dropWhile asciiWhiteSpace s)))"

text \<open>Truthiness of a value of type \<open>string | undefined\<close>: \<open>undefined\<close> and \<open>""\<close> are falsy.\<close>

definition truthy :: "string option \<Rightarrow> bool" where
  "truthy v = (case v of None \<Rightarrow> False | Some s \<Rightarrow> s \<noteq> [])"

section \<open>Data model of the Microsoft 365 mail channel\<close>

text \<open>The three values of \<open>z.enum(["open", "pairing", "allowlist"])\<close>.\<close>

datatype DmPolicy = PolicyOpen | PolicyPairing | PolicyAllowlist

fun policyName :: "DmPolicy \<Rightarrow> string" where
  "policyName PolicyOpen = ''open''"
| "policyName PolicyPairing = ''pairing''"
| "policyName PolicyAllowlist = ''allowlist''"

text \<open>The fields of \<open>Microsoft365ConfigSchema\<close> that the inbound handler reads.\<close>

record Microsoft365Config =
  allowFrom :: "string list option"
  dmPolicy :: "DmPolicy option"

text \<open>\<open>cfg.channels?.microsoft365\<close>: absent when either level is undefined.\<close>

record OpenClawConfig =
  microsoft365 :: "Microsoft365Config option"

record Credentials =
  refreshToken :: "string option"

record EmailAddress =
  address :: "string option"
  name :: "string option"

record Recipient =
  emailAddress :: "EmailAddress option"

record GraphMailMessage =
  id' :: string
  from' :: "Recipient option"
  subject :: "string option"
  receivedDateTime :: "int option"

record Params =
  message :: GraphMailMessage
  cfg :: OpenClawConfig
  accountId :: string

record AgentRoute =
  agentId :: string
  routeAccountId :: string
  sessionKey :: string

text \<open>The fields of the inbound context that identify sender, session and message.\<close>

record InboundContext =
  From :: string
  To :: string
  SessionKey :: "string option"
  AccountId :: string
  SenderName :: "string option"
  SenderId :: string
  MessageSid :: string
  Timestamp :: int

text \<open>A reply fragment: the payload's optional text and the kind the dispatcher tags it with.\<close>

record ReplyFragment =
  text' :: "string option"
  kind :: string

record PairingRequest =
  channel :: string
  senderIdentity :: string
  code' :: string
  displayName :: "string option"

text \<open>
  Every effect of the handler on its collaborators, in the order it happens. A rejected
  promise carries the rendering \<open>String(err)\<close> of its error; \<open>None\<close> is a resolved one.
  The log events are the messages handed to the optional \<open>log\<close> parameter, and
  \<open>InboundDrop\<close> is the record handed to \<open>logInboundDrop\<close>.
\<close>

datatype event =
    LogInfo string
  | LogWarn string
  | LogError string
  | UpsertPairingRequest string string string bool
  | ReplyToMail string string "string option"
  | MarkAsRead string "string option"
  | InboundDrop string string string
  | RecordInboundSession string "string option"
  | AgentDispatch InboundContext

record World =
  pairingRequests :: "PairingRequest list"
  sessions :: "(string \<times> int) list"
  trace :: "event list"

text \<open>
  The plugin runtime (\<open>core\<close>): the collaborators of \<open>openclaw/plugin-sdk\<close> that the handler
  calls and whose code is not part of these sources, as parameters.
  \<open>readAllowFromStore\<close> gives the outcome of the store read (\<open>Inl\<close>: the promise rejects).
  \<open>generatePairingCode\<close>, \<open>sessionWrite\<close> and \<open>agentReply\<close> are what the models of the pairing
  store, the session store and the agent leave open: the code of a new request, the outcome
  of a session write, the fragments emitted for an inbound context. The other collaborators
  are taken to return: the handler catches none of their errors.
\<close>

record PluginRuntime =
  readAllowFromStore :: "string \<Rightarrow> string + string list"
  generatePairingCode :: "PairingRequest list \<Rightarrow> string"
  buildPairingReply :: "string \<Rightarrow> string \<Rightarrow> string \<Rightarrow> string"
  resolveAgentRoute :: "string \<Rightarrow> string \<Rightarrow> string \<Rightarrow> AgentRoute"
  finalizeInboundContext :: "InboundContext \<Rightarrow> InboundContext"
  sessionWrite :: "string \<Rightarrow> string option"
  agentReply :: "InboundContext \<Rightarrow> ReplyFragment list"

text \<open>
  What the JavaScript engine, \<open>graph-client.js\<close> and the clock give: the string builtins
  \<open>s.toLowerCase()\<close> and \<open>s.trim()\<close>, the value of \<open>resolveCredentials(m365)\<close>, the outcome of
  \<open>client.replyToMail(id, text)\<close> and of \<open>client.markAsRead(id)\<close>, and \<open>Date.now()\<close>.
\<close>

record Environment =
  toLowerCase :: "string \<Rightarrow> string"
  trim :: "string \<Rightarrow> string"
  credentials :: "Credentials option"
  replyToMail :: "string \<Rightarrow> string \<Rightarrow> string option"
  markAsRead :: "string \<Rightarrow> string option"
  now :: int

section \<open>The plugin's normalizers (\<open>channel.ts\<close>)\<close>

definition CHANNEL_ID :: string where
  "CHANNEL_ID = ''microsoft365''"

text \<open>\<open>pairing.normalizeAllowEntry: (entry) => entry.toLowerCase().trim()\<close>\<close>

definition normalizeAllowEntry :: "Environment \<Rightarrow> string \<Rightarrow> string" where
  "normalizeAllowEntry env entry = trim env (toLowerCase env entry)"

text \<open>\<open>config.formatAllowFrom\<close>\<close>

definition formatAllowFrom :: "Environment \<Rightarrow> string list \<Rightarrow> string list" where
  "formatAllowFrom env es = filter (\<lambda>e. e \<noteq> []) (map (\<lambda>entry. toLowerCase env (trim env entry)) es)"

text \<open>\<open>security.collectWarnings\<close>\<close>

definition collectWarnings :: "OpenClawConfig \<Rightarrow> string list" where
  \<open>collectWarnings c =
     (let m365 = microsoft365 c;
          policy = (case Option.bind m365 dmPolicy of None \<Rightarrow> PolicyPairing | Some p \<Rightarrow> p)
      in if policy = PolicyOpen
         then [''- Microsoft 365 Mail: dmPolicy="open" allows anyone to send emails that trigger the agent. Consider using "pairing" or "allowlist".'']
         else [])\<close>

text \<open>\<open>getMicrosoft365Runtime\<close>: raises while the runtime has not been set.\<close>

definition getMicrosoft365Runtime :: "PluginRuntime option \<Rightarrow> string + PluginRuntime" where
  "getMicrosoft365Runtime runtime =
     (case runtime of
        None \<Rightarrow> Inl ''Microsoft365 runtime not initialized''
      | Some r \<Rightarrow> Inr r)"

section \<open>Effects\<close>

definition emit :: "event \<Rightarrow> World \<Rightarrow> World" where
  "emit e w = w\<lparr>trace := trace w @ [e]\<rparr>"

text \<open>
  Modelled from the spec: \<open>upsertPairingRequest\<close> of the pairing store, whose code is not
  part of these sources. If a pending request for (channel, sender identity) exists, it
  returns the existing code with \<open>created = false\<close>; otherwise it generates a new code,
  persists the request and returns \<open>created = true\<close>. The call is recorded in the trace.
\<close>

definition upsertPairingRequest ::
  "PluginRuntime \<Rightarrow> string \<Rightarrow> string \<Rightarrow> string option \<Rightarrow> World \<Rightarrow> (string \<times> bool) \<times> World" where
  "upsertPairingRequest core ch sid nm w =
     (case find (\<lambda>r. channel r = ch \<and> senderIdentity r = sid) (pairingRequests w) of
        Some r \<Rightarrow> ((code' r, False), emit (UpsertPairingRequest ch sid (code' r) False) w)
      | None \<Rightarrow>
          (let c = generatePairingCode core (pairingRequests w);
               r = \<lparr>channel = ch, senderIdentity = sid, code' = c, displayName = nm\<rparr>
           in ((c, True),
               emit (UpsertPairingRequest ch sid c True)
                 (w\<lparr>pairingRequests := pairingRequests w @ [r]\<rparr>))))"

text \<open>
  Modelled from the spec: \<open>recordInboundSession\<close> of the session store, whose code is not
  part of these sources: a best-effort write that reports a failure through
  \<open>onRecordError\<close> and never aborts.
\<close>

definition recordInboundSession ::
  "PluginRuntime \<Rightarrow> string \<Rightarrow> InboundContext \<Rightarrow> (string \<Rightarrow> World \<Rightarrow> World) \<Rightarrow> World \<Rightarrow> World" where
  "recordInboundSession core key ctx onRecordError w =
     (let outcome = sessionWrite core key;
          w' = emit (RecordInboundSession key outcome) w
      in case outcome of
           None \<Rightarrow> w'\<lparr>sessions := (key, Timestamp ctx) # sessions w'\<rparr>
         | Some err \<Rightarrow> onRecordError err w')"

text \<open>The text of a reply payload: \<open>payload.text ?? ""\<close>.\<close>

definition fragmentText :: "ReplyFragment \<Rightarrow> string" where
  "fragmentText payload = (case text' payload of None \<Rightarrow> [] | Some t \<Rightarrow> t)"

text \<open>
  Modelled from the spec: the delivery loop of the reply dispatcher (\<open>openclaw/plugin-sdk\<close>),
  whose code is not part of these sources. Fragments are delivered in emission order, one
  after the other; an empty or white-space-only fragment is skipped without invoking
  delivery; a delivery failure is caught, reported through \<open>onError\<close> with the fragment's
  kind, and dispatch continues with the next fragment. \<open>deliver\<close> returns the error it
  raised, if any, and the world it left.
\<close>

fun dispatchFragments ::
  "Environment \<Rightarrow> (ReplyFragment \<Rightarrow> World \<Rightarrow> string option \<times> World) \<Rightarrow>
   (string \<Rightarrow> string \<Rightarrow> World \<Rightarrow> World) \<Rightarrow> ReplyFragment list \<Rightarrow> World \<Rightarrow> World" where
  "dispatchFragments env deliver onError [] w = w"
| "dispatchFragments env deliver onError (f # fs) w =
     (if trim env (fragmentText f) = [] then dispatchFragments env deliver onError fs w
      else (case deliver f w of
              (None, w') \<Rightarrow> dispatchFragments env deliver onError fs w'
            | (Some err, w') \<Rightarrow> dispatchFragments env deliver onError fs (onError err (kind f) w')))"

text \<open>
  Modelled from the spec: \<open>dispatchReplyWithBufferedBlockDispatcher\<close> (\<open>openclaw/plugin-sdk\<close>),
  whose code is not part of these sources: the agent is invoked on the inbound context and
  the fragments it emits go through the delivery loop.
\<close>

definition dispatchReplyWithBufferedBlockDispatcher ::
  "Environment \<Rightarrow> PluginRuntime \<Rightarrow> InboundContext \<Rightarrow>
   (ReplyFragment \<Rightarrow> World \<Rightarrow> string option \<times> World) \<Rightarrow>
   (string \<Rightarrow> string \<Rightarrow> World \<Rightarrow> World) \<Rightarrow> World \<Rightarrow> World" where
  "dispatchReplyWithBufferedBlockDispatcher env core ctx deliver onError w =
     dispatchFragments env deliver onError (agentReply core ctx) (emit (AgentDispatch ctx) w)"

section \<open>\<open>handleIncomingMail\<close> (\<open>channel.ts\<close>)\<close>

definition fromAddress :: "GraphMailMessage \<Rightarrow> string option" where
  "fromAddress msg = Option.bind (Option.bind (from' msg) emailAddress) address"

definition fromEmail :: "Environment \<Rightarrow> GraphMailMessage \<Rightarrow> string option" where
  "fromEmail env msg = map_option (toLowerCase env) (fromAddress msg)"

definition fromName :: "GraphMailMessage \<Rightarrow> string option" where
  "fromName msg = Option.bind (Option.bind (from' msg) emailAddress) name"

definition effectiveDmPolicy :: "Microsoft365Config option \<Rightarrow> DmPolicy" where
  "effectiveDmPolicy m365 =
     (case Option.bind m365 dmPolicy of None \<Rightarrow> PolicyPairing | Some p \<Rightarrow> p)"

definition configAllowFrom :: "Environment \<Rightarrow> Microsoft365Config option \<Rightarrow> string list" where
  "configAllowFrom env m365 =
     filter (\<lambda>e. e \<noteq> [])
       (map (\<lambda>e. toLowerCase env (trim env e))
          (case Option.bind m365 allowFrom of None \<Rightarrow> [] | Some es \<Rightarrow> es))"

text \<open>\<open>readAllowFromStore(CHANNEL_ID).catch(() => [])\<close>\<close>

definition storeAllowFrom :: "string + string list \<Rightarrow> string list" where
  "storeAllowFrom storeRead = (case storeRead of Inl err \<Rightarrow> [] | Inr es \<Rightarrow> es)"

definition storeAllowList :: "Environment \<Rightarrow> string + string list \<Rightarrow> string list" where
  "storeAllowList env storeRead =
     filter (\<lambda>e. e \<noteq> []) (map (\<lambda>e. toLowerCase env (trim env e)) (storeAllowFrom storeRead))"

definition effectiveAllowFrom ::
  "Environment \<Rightarrow> Microsoft365Config option \<Rightarrow> string + string list \<Rightarrow> string list" where
  "effectiveAllowFrom env m365 storeRead = configAllowFrom env m365 @ storeAllowList env storeRead"

definition senderAllowed :: "string list \<Rightarrow> string \<Rightarrow> bool" where
  "senderAllowed allowList sender = list_ex (\<lambda>entry. entry = sender \<or> entry = ''*'') allowList"

text \<open>The pairing reply of a newly created request: sent only with a refresh token; a failure is logged.\<close>

definition sendPairingReply ::
  "PluginRuntime \<Rightarrow> Environment \<Rightarrow> GraphMailMessage \<Rightarrow> string \<Rightarrow> string \<Rightarrow> World \<Rightarrow> World" where
  "sendPairingReply core env msg sender code w =
     (if truthy (Option.bind (credentials env) refreshToken) then
        (let body = buildPairingReply core CHANNEL_ID (''Your email address: '' @ sender) code;
             outcome = replyToMail env (id' msg) body;
             w' = emit (ReplyToMail (id' msg) body outcome) w
         in case outcome of
              None \<Rightarrow> w'
            | Some err \<Rightarrow>
                emit (LogError (''microsoft365: pairing reply failed for '' @ sender @ '': '' @ err)) w')
      else w)"

text \<open>The pairing branch of the policy check: upsert the request, reply only when it was created.\<close>

definition requestPairing ::
  "PluginRuntime \<Rightarrow> Environment \<Rightarrow> GraphMailMessage \<Rightarrow> string \<Rightarrow> World \<Rightarrow> World" where
  "requestPairing core env msg sender w =
     (case upsertPairingRequest core CHANNEL_ID sender
             (if truthy (fromName msg) then fromName msg else None) w of
        ((code, created), w') \<Rightarrow>
          if created then sendPairingReply core env msg sender code w' else w')"

text \<open>Mark the mail as read; a failure is logged as a warning.\<close>

definition markEmailAsRead :: "Environment \<Rightarrow> GraphMailMessage \<Rightarrow> World \<Rightarrow> World" where
  "markEmailAsRead env msg w =
     (if truthy (Option.bind (credentials env) refreshToken) then
        (let outcome = markAsRead env (id' msg);
             w' = emit (MarkAsRead (id' msg) outcome) w
         in case outcome of
              None \<Rightarrow> w'
            | Some err \<Rightarrow> emit (LogWarn (''microsoft365: failed to mark message as read: '' @ err)) w')
      else w)"

text \<open>The \<open>deliver\<close> and \<open>onError\<close> callbacks handed to the dispatcher.\<close>

definition deliver ::
  "Environment \<Rightarrow> GraphMailMessage \<Rightarrow> ReplyFragment \<Rightarrow> World \<Rightarrow> string option \<times> World" where
  "deliver env msg payload w =
     (let txt = fragmentText payload in
      if trim env txt = [] then (None, w)
      else if \<not> truthy (Option.bind (credentials env) refreshToken)
      then (None, emit (LogError ''microsoft365: cannot reply, missing refreshToken'') w)
      else (let outcome = replyToMail env (id' msg) txt
            in (outcome, emit (ReplyToMail (id' msg) txt outcome) w)))"

definition onError :: "string \<Rightarrow> string \<Rightarrow> World \<Rightarrow> World" where
  "onError err k w = emit (LogError (''microsoft365 '' @ k @ '' reply failed: '' @ err)) w"

definition onRecordError :: "string \<Rightarrow> World \<Rightarrow> World" where
  "onRecordError err w = emit (LogError (''microsoft365: failed updating session meta: '' @ err)) w"

text \<open>
  The part of the handler after the policy check: mark as read, resolve the route, build
  the inbound context, record the session, dispatch the reply. The envelope text handed
  to the agent is not part of the model.
\<close>

definition admitInbound ::
  "PluginRuntime \<Rightarrow> Environment \<Rightarrow> Params \<Rightarrow> string \<Rightarrow> World \<Rightarrow> World" where
  "admitInbound core env params sender w =
     (let msg = message params;
          w1 = markEmailAsRead env msg w;
          route = resolveAgentRoute core CHANNEL_ID (accountId params) sender;
          messageTimestamp = (case receivedDateTime msg of Some t \<Rightarrow> t | None \<Rightarrow> now env);
          ctxPayload = finalizeInboundContext core
            \<lparr>From = ''microsoft365:'' @ sender,
             To = ''microsoft365:'' @ accountId params,
             SessionKey = Some (sessionKey route),
             AccountId = routeAccountId route,
             SenderName = (if truthy (fromName msg) then fromName msg else None),
             SenderId = sender,
             MessageSid = id' msg,
             Timestamp = messageTimestamp\<rparr>;
          w2 = recordInboundSession core
                 (case SessionKey ctxPayload of Some k \<Rightarrow> k | None \<Rightarrow> sessionKey route)
                 ctxPayload onRecordError w1
      in dispatchReplyWithBufferedBlockDispatcher env core ctxPayload (deliver env msg) onError w2)"

text \<open>The line logged for a mail that has a sender: \<open>Incoming email from ${fromEmail}: ${subject}\<close>.\<close>

definition incomingLine :: "string \<Rightarrow> GraphMailMessage \<Rightarrow> string" where
  "incomingLine sender msg =
     ''Incoming email from '' @ sender @ '': '' @
       (case subject msg of None \<Rightarrow> ''(no subject)'' | Some t \<Rightarrow> t)"

definition handleIncomingMail ::
  "PluginRuntime option \<Rightarrow> Environment \<Rightarrow> Params \<Rightarrow> World \<Rightarrow> string + World" where
  "handleIncomingMail runtime env params w =
     (case getMicrosoft365Runtime runtime of
        Inl err \<Rightarrow> Inl err
      | Inr core \<Rightarrow>
         (let msg = message params in
          case fromEmail env msg of
            None \<Rightarrow> Inr (emit (LogWarn ''microsoft365: dropping message with no sender address'') w)
          | Some sender \<Rightarrow>
             if sender = [] then
               Inr (emit (LogWarn ''microsoft365: dropping message with no sender address'') w)
             else
              (let w1 = emit (LogInfo (incomingLine sender msg)) w;
                   m365 = microsoft365 (cfg params);
                   policy = effectiveDmPolicy m365;
                   allowList = effectiveAllowFrom env m365 (readAllowFromStore core CHANNEL_ID)
               in if policy \<noteq> PolicyOpen \<and> \<not> senderAllowed allowList sender then
                    (let w2 = (if policy = PolicyPairing then requestPairing core env msg sender w1 else w1)
                     in Inr (emit (InboundDrop CHANNEL_ID (''dmPolicy='' @ policyName policy) sender) w2))
                  else Inr (admitInbound core env params sender w1))))"

text \<open>
  The mails of one account, handled one after the other (\<open>onMail\<close> of \<open>gateway.startAccount\<close>
  awaits the handler with the account's configuration). Two handlers never interleave here;
  the allow-lists do not change between the mails.
\<close>

fun onMails ::
  "PluginRuntime option \<Rightarrow> Environment \<Rightarrow> OpenClawConfig \<Rightarrow> string \<Rightarrow> GraphMailMessage list \<Rightarrow>
   World \<Rightarrow> string + World" where
  "onMails runtime env c acct [] w = Inr w"
| "onMails runtime env c acct (m # ms) w =
     (case handleIncomingMail runtime env \<lparr>message = m, cfg = c, accountId = acct\<rparr> w of
        Inl err \<Rightarrow> Inl err
      | Inr w' \<Rightarrow> onMails runtime env c acct ms w')"

section \<open>Scenarios\<close>

text \<open>
  A runtime with an empty allow-from store, an agent that answers nothing, and a Graph
  client with a refresh token whose calls succeed. The mails and lists of the scenarios are
  7-bit text, on which the engine's builtins are \<open>asciiToLowerCase\<close> and \<open>asciiTrim\<close>.
\<close>

definition quietRuntime :: PluginRuntime where
  "quietRuntime =
     \<lparr>readAllowFromStore = (\<lambda>ch. Inr []),
      generatePairingCode = (\<lambda>rs. ''K7Q2''),
      buildPairingReply = (\<lambda>ch idLine c. idLine @ '' / code '' @ c),
      resolveAgentRoute = (\<lambda>ch acct peer. \<lparr>agentId = ''main'', routeAccountId = acct, sessionKey = peer\<rparr>),
      finalizeInboundContext = (\<lambda>ctx. ctx),
      sessionWrite = (\<lambda>key. None),
      agentReply = (\<lambda>ctx. [])\<rparr>"

definition graphOk :: Environment where
  "graphOk =
     \<lparr>toLowerCase = asciiToLowerCase,
      trim = asciiTrim,
      credentials = Some \<lparr>refreshToken = Some ''rt''\<rparr>,
      replyToMail = (\<lambda>mid body. None),
      markAsRead = (\<lambda>mid. None),
      now = 0\<rparr>"

definition graphUnconfigured :: Environment where
  "graphUnconfigured =
     \<lparr>toLowerCase = asciiToLowerCase,
      trim = asciiTrim,
      credentials = None,
      replyToMail = (\<lambda>mid body. None),
      markAsRead = (\<lambda>mid. None),
      now = 0\<rparr>"

definition mailFrom :: "string \<Rightarrow> string \<Rightarrow> GraphMailMessage" where
  "mailFrom mid addr =
     \<lparr>id' = mid,
      from' = Some \<lparr>emailAddress = Some \<lparr>address = Some addr, name = None\<rparr>\<rparr>,
      subject = Some ''hi'',
      receivedDateTime = Some 1\<rparr>"

definition mailWithoutSender :: GraphMailMessage where
  "mailWithoutSender = \<lparr>id' = ''m0'', from' = None, subject = None, receivedDateTime = None\<rparr>"

definition configWith :: "DmPolicy option \<Rightarrow> string list \<Rightarrow> OpenClawConfig" where
  "configWith policy entries = \<lparr>microsoft365 = Some \<lparr>allowFrom = Some entries, dmPolicy = policy\<rparr>\<rparr>"

text \<open>A Graph client whose reply fails exactly for one body.\<close>

definition graphFailingOn :: "string \<Rightarrow> Environment" where
  "graphFailingOn bad =
     \<lparr>toLowerCase = asciiToLowerCase,
      trim = asciiTrim,
      credentials = Some \<lparr>refreshToken = Some ''rt''\<rparr>,
      replyToMail = (\<lambda>mid body. if body = bad then Some ''503'' else None),
      markAsRead = (\<lambda>mid. None),
      now = 0\<rparr>"

definition fragment :: "string \<Rightarrow> string \<Rightarrow> ReplyFragment" where
  "fragment k t = \<lparr>text' = Some t, kind = k\<rparr>"

definition someContext :: InboundContext where
  "someContext =
     \<lparr>From = ''microsoft365:bob@x.com'', To = ''microsoft365:default'', SessionKey = Some ''bob@x.com'',
      AccountId = ''default'', SenderName = None, SenderId = ''bob@x.com'', MessageSid = ''m1'',
      Timestamp = 1\<rparr>"

definition freshWorld :: World where
  "freshWorld = \<lparr>pairingRequests = [], sessions = [], trace = []\<rparr>"

section \<open>Reading a trace\<close>

text \<open>The events a run appended to the trace it started from.\<close>

definition newEvents :: "World \<Rightarrow> World \<Rightarrow> event list" where
  "newEvents w w' = drop (length (trace w)) (trace w')"

fun isAgentDispatch :: "event \<Rightarrow> bool" where
  "isAgentDispatch (AgentDispatch ctx) = True"
| "isAgentDispatch e = False"

fun isInboundDrop :: "event \<Rightarrow> bool" where
  "isInboundDrop (InboundDrop ch reason target) = True"
| "isInboundDrop e = False"

fun isUpsert :: "event \<Rightarrow> bool" where
  "isUpsert (UpsertPairingRequest ch sid c created) = True"
| "isUpsert e = False"

fun isReplyToMail :: "event \<Rightarrow> bool" where
  "isReplyToMail (ReplyToMail mid body outcome) = True"
| "isReplyToMail e = False"

fun isMarkAsRead :: "event \<Rightarrow> bool" where
  "isMarkAsRead (MarkAsRead mid outcome) = True"
| "isMarkAsRead e = False"

fun isRecordInboundSession :: "event \<Rightarrow> bool" where
  "isRecordInboundSession (RecordInboundSession key outcome) = True"
| "isRecordInboundSession e = False"

text \<open>The events of the pairing flow: the upsert, the pairing reply and the report of its failure.\<close>

fun pairingEvent :: "event \<Rightarrow> bool" where
  "pairingEvent (UpsertPairingRequest ch sid c created) = True"
| "pairingEvent (ReplyToMail mid body outcome) = True"
| "pairingEvent (LogError m) = True"
| "pairingEvent e = False"

text \<open>The events of an admitted mail: everything but an upsert and a drop record.\<close>

fun admitEvent :: "event \<Rightarrow> bool" where
  "admitEvent (UpsertPairingRequest ch sid c created) = False"
| "admitEvent (InboundDrop ch reason target) = False"
| "admitEvent e = True"

text \<open>The events of delivering reply fragments: the replies and the reports of their failures.\<close>

fun deliveryEvent :: "event \<Rightarrow> bool" where
  "deliveryEvent (ReplyToMail mid body outcome) = True"
| "deliveryEvent (LogError m) = True"
| "deliveryEvent e = False"

text \<open>
  What delivering one fragment leaves in the trace when the client has a refresh token:
  nothing for a blank fragment, else the reply and, if it failed, the report of the failure
  tagged with the fragment's kind.
\<close>

definition deliveryOf :: "Environment \<Rightarrow> GraphMailMessage \<Rightarrow> ReplyFragment \<Rightarrow> event list" where
  "deliveryOf env msg f =
     (if trim env (fragmentText f) = [] then []
      else ReplyToMail (id' msg) (fragmentText f) (replyToMail env (id' msg) (fragmentText f)) #
           (case replyToMail env (id' msg) (fragmentText f) of
              None \<Rightarrow> []
            | Some err \<Rightarrow> [LogError (''microsoft365 '' @ kind f @ '' reply failed: '' @ err)]))"

text \<open>The pairing reply that a newly created request leaves in the trace: none without a refresh token.\<close>

definition pairingReplyOf ::
  "PluginRuntime \<Rightarrow> Environment \<Rightarrow> GraphMailMessage \<Rightarrow> string \<Rightarrow> string \<Rightarrow> event list" where
  "pairingReplyOf core env msg sender c =
     (if truthy (Option.bind (credentials env) refreshToken)
      then [ReplyToMail (id' msg) (buildPairingReply core CHANNEL_ID (''Your email address: '' @ sender) c)
              (replyToMail env (id' msg) (buildPairingReply core CHANNEL_ID (''Your email address: '' @ sender) c))]
      else [])"

text \<open>The pending requests of one sender on one channel.\<close>

definition requestsOf :: "string \<Rightarrow> string \<Rightarrow> World \<Rightarrow> PairingRequest list" where
  "requestsOf ch sid w = filter (\<lambda>r. channel r = ch \<and> senderIdentity r = sid) (pairingRequests w)"

section \<open>The builtins on 7-bit text\<close>

lemma asciiLowerChar_idem: "asciiLowerChar (asciiLowerChar c) = asciiLowerChar c"
  by (auto simp: asciiLowerChar_def)

lemma asciiWhiteSpace_asciiLowerChar: "asciiWhiteSpace (asciiLowerChar c) = asciiWhiteSpace c"
  by (auto simp: asciiLowerChar_def asciiWhiteSpace_def)

lemma asciiToLowerCase_idem: "asciiToLowerCase (asciiToLowerCase s) = asciiToLowerCase s"
  by (simp add: asciiToLowerCase_def asciiLowerChar_idem)

lemma dropWhile_asciiToLowerCase:
  "dropWhile asciiWhiteSpace (asciiToLowerCase s) = asciiToLowerCase (dropWhile asciiWhiteSpace s)"
  by (induction s) (simp_all add: asciiToLowerCase_def asciiWhiteSpace_asciiLowerChar)

lemma rev_asciiToLowerCase: "rev (asciiToLowerCase s) = asciiToLowerCase (rev s)"
  by (simp add: asciiToLowerCase_def rev_map)

lemma asciiTrim_asciiToLowerCase: "asciiTrim (asciiToLowerCase s) = asciiToLowerCase (asciiTrim s)"
  by (simp add: asciiTrim_def dropWhile_asciiToLowerCase rev_asciiToLowerCase)

lemma trimEnd_keeps_head:
  assumes "xs = [] \<or> \<not> P (hd xs)"
  shows "dropWhile P (rev (dropWhile P (rev xs))) = rev (dropWhile P (rev xs))"
proof (cases "rev (dropWhile P (rev xs)) = []")
  case True
  then have e: "dropWhile P (rev xs) = []" by simp
  show ?thesis unfolding e by simp
next
  case False
  have "rev xs = takeWhile P (rev xs) @ dropWhile P (rev xs)" by simp
  then have "xs = rev (dropWhile P (rev xs)) @ rev (takeWhile P (rev xs))"
    by (metis rev_append rev_rev_ident)
  then have "hd xs = hd (rev (dropWhile P (rev xs)))"
    using False by (metis hd_append2)
  moreover have "xs \<noteq> []" using False by auto
  ultimately have "\<not> P (hd (rev (dropWhile P (rev xs))))" using assms by simp
  then show ?thesis using False by (simp add: dropWhile_eq_self_iff)
qed

lemma asciiTrim_idem: "asciiTrim (asciiTrim s) = asciiTrim s"
proof -
  have "dropWhile asciiWhiteSpace s = [] \<or> \<not> asciiWhiteSpace (hd (dropWhile asciiWhiteSpace s))"
    by (metis hd_dropWhile)
  then have "dropWhile asciiWhiteSpace (asciiTrim s) = asciiTrim s"
    unfolding asciiTrim_def by (rule trimEnd_keeps_head)
  then show ?thesis
    by (simp add: asciiTrim_def)
qed

lemma asciiNormalize_idem:
  "asciiToLowerCase (asciiTrim (asciiToLowerCase (asciiTrim e))) = asciiToLowerCase (asciiTrim e)"
  by (simp add: asciiTrim_asciiToLowerCase asciiTrim_idem asciiToLowerCase_idem)

section \<open>What each step appends to the trace\<close>

lemma trace_emit [simp]: "trace (emit e w) = trace w @ [e]"
  by (simp add: emit_def)

lemma pairingRequests_emit [simp]: "pairingRequests (emit e w) = pairingRequests w"
  by (simp add: emit_def)

lemma sessions_emit [simp]: "sessions (emit e w) = sessions w"
  by (simp add: emit_def)

lemma newEvents_append: "trace w' = trace w @ evs \<Longrightarrow> newEvents w w' = evs"
  by (simp add: newEvents_def)

lemma sendPairingReply_effect:
  "\<exists>evs. trace (sendPairingReply core env msg sender c w) = trace w @ evs \<and>
         list_all pairingEvent evs \<and> \<not> list_ex isUpsert evs \<and>
         pairingRequests (sendPairingReply core env msg sender c w) = pairingRequests w \<and>
         sessions (sendPairingReply core env msg sender c w) = sessions w"
  by (auto simp: sendPairingReply_def Let_def split: option.splits)

lemma markEmailAsRead_effect:
  "\<exists>evs. trace (markEmailAsRead env msg w) = trace w @ evs \<and>
         list_all admitEvent evs \<and> \<not> list_ex isAgentDispatch evs \<and>
         pairingRequests (markEmailAsRead env msg w) = pairingRequests w"
  by (auto simp: markEmailAsRead_def Let_def split: option.splits)

lemma recordInboundSession_effect:
  "\<exists>evs. trace (recordInboundSession core key ctx onRecordError w) = trace w @ evs \<and>
         list_all admitEvent evs \<and> \<not> list_ex isAgentDispatch evs \<and>
         pairingRequests (recordInboundSession core key ctx onRecordError w) = pairingRequests w"
  by (auto simp: recordInboundSession_def onRecordError_def Let_def split: option.splits)

lemma deliver_effect:
  "\<exists>evs. trace (snd (deliver env msg f w)) = trace w @ evs \<and>
         list_all deliveryEvent evs \<and>
         pairingRequests (snd (deliver env msg f w)) = pairingRequests w \<and>
         sessions (snd (deliver env msg f w)) = sessions w"
  by (auto simp: deliver_def Let_def)

lemma dispatchFragments_effect:
  "\<exists>evs. trace (dispatchFragments env (deliver env msg) onError fs w) = trace w @ evs \<and>
         list_all deliveryEvent evs \<and>
         pairingRequests (dispatchFragments env (deliver env msg) onError fs w) = pairingRequests w \<and>
         sessions (dispatchFragments env (deliver env msg) onError fs w) = sessions w"
proof (induction fs arbitrary: w)
  case Nil
  then show ?case by simp
next
  case (Cons f fs)
  show ?case
  proof (cases "trim env (fragmentText f) = []")
    case True
    then show ?thesis using Cons.IH [of w] by simp
  next
    case False
    obtain r w1 where d: "deliver env msg f w = (r, w1)" by (cases "deliver env msg f w")
    obtain e1 where e1: "trace w1 = trace w @ e1" "list_all deliveryEvent e1"
      "pairingRequests w1 = pairingRequests w" "sessions w1 = sessions w"
      using deliver_effect [of env msg f w] d by auto
    define w2 where "w2 = (case r of None \<Rightarrow> w1 | Some err \<Rightarrow> onError err (kind f) w1)"
    have r: "dispatchFragments env (deliver env msg) onError (f # fs) w =
             dispatchFragments env (deliver env msg) onError fs w2"
      using False d by (simp add: w2_def split: option.splits)
    obtain e2 where e2: "trace w2 = trace w1 @ e2" "list_all deliveryEvent e2"
      "pairingRequests w2 = pairingRequests w1" "sessions w2 = sessions w1"
      by (cases r) (auto simp: w2_def onError_def)
    obtain e3 where e3: "trace (dispatchFragments env (deliver env msg) onError fs w2) = trace w2 @ e3"
      "list_all deliveryEvent e3"
      "pairingRequests (dispatchFragments env (deliver env msg) onError fs w2) = pairingRequests w2"
      "sessions (dispatchFragments env (deliver env msg) onError fs w2) = sessions w2"
      using Cons.IH [of w2] by auto
    show ?thesis
      unfolding r using e1 e2 e3 by (intro exI [of _ "e1 @ e2 @ e3"]) simp
  qed
qed

lemma deliveryEvent_admit: "deliveryEvent e \<Longrightarrow> admitEvent e \<and> \<not> isAgentDispatch e"
  by (cases e) auto

lemma list_all_delivery_admit:
  "list_all deliveryEvent evs \<Longrightarrow> list_all admitEvent evs \<and> \<not> list_ex isAgentDispatch evs"
  by (induction evs) (auto dest: deliveryEvent_admit)

lemma admitInbound_effect:
  "\<exists>pre ctx post. trace (admitInbound core env params sender w) = trace w @ pre @ AgentDispatch ctx # post \<and>
         list_all admitEvent pre \<and> \<not> list_ex isAgentDispatch pre \<and>
         list_all deliveryEvent post \<and>
         pairingRequests (admitInbound core env params sender w) = pairingRequests w"
proof -
  define msg where "msg = message params"
  define w1 where "w1 = markEmailAsRead env msg w"
  define route where "route = resolveAgentRoute core CHANNEL_ID (accountId params) sender"
  define ctx where "ctx = finalizeInboundContext core
            \<lparr>From = ''microsoft365:'' @ sender,
             To = ''microsoft365:'' @ accountId params,
             SessionKey = Some (sessionKey route),
             AccountId = routeAccountId route,
             SenderName = (if truthy (fromName msg) then fromName msg else None),
             SenderId = sender,
             MessageSid = id' msg,
             Timestamp = (case receivedDateTime msg of Some t \<Rightarrow> t | None \<Rightarrow> now env)\<rparr>"
  define w2 where "w2 = recordInboundSession core
                 (case SessionKey ctx of Some k \<Rightarrow> k | None \<Rightarrow> sessionKey route)
                 ctx onRecordError w1"
  define w3 where "w3 = emit (AgentDispatch ctx) w2"
  have r: "admitInbound core env params sender w =
           dispatchFragments env (deliver env msg) onError (agentReply core ctx) w3"
    by (simp only: admitInbound_def Let_def dispatchReplyWithBufferedBlockDispatcher_def
        msg_def w1_def route_def ctx_def w2_def w3_def)
  obtain e1 where e1: "trace w1 = trace w @ e1" "list_all admitEvent e1"
    "\<not> list_ex isAgentDispatch e1" "pairingRequests w1 = pairingRequests w"
    using markEmailAsRead_effect [of env msg w] by (auto simp: w1_def)
  obtain e2 where e2: "trace w2 = trace w1 @ e2" "list_all admitEvent e2"
    "\<not> list_ex isAgentDispatch e2" "pairingRequests w2 = pairingRequests w1"
    unfolding w2_def using recordInboundSession_effect by blast
  obtain e3 where e3:
    "trace (dispatchFragments env (deliver env msg) onError (agentReply core ctx) w3) = trace w3 @ e3"
    "list_all deliveryEvent e3"
    "pairingRequests (dispatchFragments env (deliver env msg) onError (agentReply core ctx) w3) = pairingRequests w3"
    using dispatchFragments_effect by blast
  show ?thesis
    unfolding r using e1 e2 e3
    by (intro exI [of _ "e1 @ e2"] exI [of _ ctx] exI [of _ e3]) (simp add: w3_def)
qed

section \<open>The handler, branch by branch\<close>

lemma senderAllowed_iff: "senderAllowed allowList sender \<longleftrightarrow> sender \<in> set allowList \<or> ''*'' \<in> set allowList"
  by (auto simp: senderAllowed_def list_ex_iff)

lemma handle_without_runtime:
  "handleIncomingMail None env params w = Inl ''Microsoft365 runtime not initialized''"
  by (simp add: handleIncomingMail_def getMicrosoft365Runtime_def)

lemma handle_no_sender:
  "\<not> truthy (fromEmail env (message params)) \<Longrightarrow>
   handleIncomingMail (Some core) env params w =
     Inr (emit (LogWarn ''microsoft365: dropping message with no sender address'') w)"
  by (simp add: handleIncomingMail_def getMicrosoft365Runtime_def truthy_def Let_def
      split: option.splits)

lemma handle_admitted:
  assumes "fromEmail env (message params) = Some sender" and "sender \<noteq> []"
    and "effectiveDmPolicy (microsoft365 (cfg params)) = PolicyOpen \<or>
         senderAllowed (effectiveAllowFrom env (microsoft365 (cfg params)) (readAllowFromStore core CHANNEL_ID)) sender"
  shows "handleIncomingMail (Some core) env params w =
     Inr (admitInbound core env params sender
            (emit (LogInfo (incomingLine sender (message params))) w))"
  using assms
  by (auto simp add: handleIncomingMail_def getMicrosoft365Runtime_def Let_def)

lemma handle_denied:
  assumes "fromEmail env (message params) = Some sender" and "sender \<noteq> []"
    and "effectiveDmPolicy (microsoft365 (cfg params)) = policy" and "policy \<noteq> PolicyOpen"
    and "\<not> senderAllowed (effectiveAllowFrom env (microsoft365 (cfg params)) (readAllowFromStore core CHANNEL_ID)) sender"
  shows "handleIncomingMail (Some core) env params w =
     Inr (emit (InboundDrop CHANNEL_ID (''dmPolicy='' @ policyName policy) sender)
            ((if policy = PolicyPairing then requestPairing core env (message params) sender else (\<lambda>w. w))
               (emit (LogInfo (incomingLine sender (message params))) w)))"
  using assms
  by (auto simp add: handleIncomingMail_def getMicrosoft365Runtime_def Let_def)

lemma find_filter_Nil: "filter P xs = [] \<Longrightarrow> find P xs = None"
  by (induction xs) (auto split: if_splits)

lemma find_filter_Cons: "filter P xs = r # rs \<Longrightarrow> find P xs = Some r"
  by (induction xs) (auto split: if_splits)

lemma requestPairing_first:
  assumes "requestsOf CHANNEL_ID sender w = []"
  shows "requestPairing core env msg sender w =
     sendPairingReply core env msg sender (generatePairingCode core (pairingRequests w))
       (emit (UpsertPairingRequest CHANNEL_ID sender (generatePairingCode core (pairingRequests w)) True)
         (w\<lparr>pairingRequests := pairingRequests w @
              [\<lparr>channel = CHANNEL_ID, senderIdentity = sender,
                code' = generatePairingCode core (pairingRequests w),
                displayName = (if truthy (fromName msg) then fromName msg else None)\<rparr>]\<rparr>))"
  using find_filter_Nil [OF assms [unfolded requestsOf_def]]
  by (simp add: requestPairing_def upsertPairingRequest_def Let_def)

lemma requestPairing_repeat:
  assumes "requestsOf CHANNEL_ID sender w = r # rs"
  shows "requestPairing core env msg sender w =
     emit (UpsertPairingRequest CHANNEL_ID sender (code' r) False) w"
  using find_filter_Cons [OF assms [unfolded requestsOf_def]]
  by (simp add: requestPairing_def upsertPairingRequest_def Let_def)

lemma requestPairing_effect:
  "\<exists>evs. trace (requestPairing core env msg sender w) = trace w @ evs \<and>
         list_all pairingEvent evs \<and>
         sessions (requestPairing core env msg sender w) = sessions w"
proof (cases "requestsOf CHANNEL_ID sender w")
  case Nil
  obtain evs where
    "trace (requestPairing core env msg sender w) =
       (trace w @ [UpsertPairingRequest CHANNEL_ID sender (generatePairingCode core (pairingRequests w)) True]) @ evs"
    "list_all pairingEvent evs" "sessions (requestPairing core env msg sender w) = sessions w"
    unfolding requestPairing_first [OF Nil]
    using sendPairingReply_effect
      [of core env msg sender "generatePairingCode core (pairingRequests w)"
        "emit (UpsertPairingRequest CHANNEL_ID sender (generatePairingCode core (pairingRequests w)) True)
         (w\<lparr>pairingRequests := pairingRequests w @
              [\<lparr>channel = CHANNEL_ID, senderIdentity = sender,
                code' = generatePairingCode core (pairingRequests w),
                displayName = (if truthy (fromName msg) then fromName msg else None)\<rparr>]\<rparr>)"]
    by auto
  then show ?thesis
    by (intro exI [of _ "UpsertPairingRequest CHANNEL_ID sender (generatePairingCode core (pairingRequests w)) True # evs"]) simp
next
  case (Cons r rs)
  show ?thesis unfolding requestPairing_repeat [OF Cons] by simp
qed

lemma admitEvents_clean:
  "list_all admitEvent evs \<Longrightarrow> \<not> list_ex isUpsert evs \<and> \<not> list_ex isInboundDrop evs"
proof (induction evs)
  case Nil
  then show ?case by simp
next
  case (Cons x xs)
  then show ?case by (cases x) auto
qed

lemma pairingEvents_clean:
  "list_all pairingEvent evs \<Longrightarrow>
     \<not> list_ex isAgentDispatch evs \<and> \<not> list_ex isInboundDrop evs \<and>
     \<not> list_ex isMarkAsRead evs \<and> \<not> list_ex isRecordInboundSession evs"
proof (induction evs)
  case Nil
  then show ?case by simp
next
  case (Cons x xs)
  then show ?case by (cases x) auto
qed

lemma admitted_run:
  assumes "fromEmail env (message params) = Some sender" and "sender \<noteq> []"
    and "effectiveDmPolicy (microsoft365 (cfg params)) = PolicyOpen \<or>
         senderAllowed (effectiveAllowFrom env (microsoft365 (cfg params)) (readAllowFromStore core CHANNEL_ID)) sender"
  shows "\<exists>w' pre ctx post.
           handleIncomingMail (Some core) env params w = Inr w' \<and>
           newEvents w w' = LogInfo (incomingLine sender (message params)) # pre @ AgentDispatch ctx # post \<and>
           list_all admitEvent pre \<and> list_all admitEvent post \<and>
           pairingRequests w' = pairingRequests w"
proof -
  define w1 where "w1 = emit (LogInfo (incomingLine sender (message params))) w"
  have a: "handleIncomingMail (Some core) env params w = Inr (admitInbound core env params sender w1)"
    unfolding w1_def by (rule handle_admitted [OF assms])
  obtain pre ctx post where e:
    "trace (admitInbound core env params sender w1) = trace w1 @ pre @ AgentDispatch ctx # post"
    "list_all admitEvent pre" "list_all deliveryEvent post"
    "pairingRequests (admitInbound core env params sender w1) = pairingRequests w1"
    using admitInbound_effect [of core env params sender w1] by blast
  have post: "list_all admitEvent post" using e(3) list_all_delivery_admit by blast
  have t: "trace w1 = trace w @ [LogInfo (incomingLine sender (message params))]"
    by (simp add: w1_def)
  have n: "newEvents w (admitInbound core env params sender w1) =
        LogInfo (incomingLine sender (message params)) # pre @ AgentDispatch ctx # post"
    by (rule newEvents_append) (simp add: e(1) t)
  show ?thesis
    using a n e(2) post e(4) by (auto simp: w1_def)
qed

lemma denied_run:
  assumes "fromEmail env (message params) = Some sender" and "sender \<noteq> []"
    and "effectiveDmPolicy (microsoft365 (cfg params)) = policy" and "policy \<noteq> PolicyOpen"
    and "\<not> senderAllowed (effectiveAllowFrom env (microsoft365 (cfg params)) (readAllowFromStore core CHANNEL_ID)) sender"
  shows "\<exists>w' evs.
           handleIncomingMail (Some core) env params w = Inr w' \<and>
           newEvents w w' = LogInfo (incomingLine sender (message params)) # evs @
              [InboundDrop CHANNEL_ID (''dmPolicy='' @ policyName policy) sender] \<and>
           list_all pairingEvent evs \<and> (policy = PolicyAllowlist \<longrightarrow> evs = []) \<and>
           sessions w' = sessions w"
proof -
  define w1 where "w1 = emit (LogInfo (incomingLine sender (message params))) w"
  define w2 where "w2 = (if policy = PolicyPairing then requestPairing core env (message params) sender else (\<lambda>w. w)) w1"
  define w3 where "w3 = emit (InboundDrop CHANNEL_ID (''dmPolicy='' @ policyName policy) sender) w2"
  have a: "handleIncomingMail (Some core) env params w = Inr w3"
    unfolding w3_def w2_def w1_def by (rule handle_denied [OF assms])
  obtain evs where e: "trace w2 = trace w1 @ evs" "list_all pairingEvent evs"
    "sessions w2 = sessions w1" "policy = PolicyAllowlist \<longrightarrow> evs = []"
  proof (cases "policy = PolicyPairing")
    case True
    then show ?thesis
      using requestPairing_effect [of core env "message params" sender w1] that
      by (auto simp: w2_def)
  next
    case False
    then show ?thesis using that [of "[]"] by (simp add: w2_def)
  qed
  have t: "trace w1 = trace w @ [LogInfo (incomingLine sender (message params))]"
    by (simp add: w1_def)
  have n: "newEvents w w3 = LogInfo (incomingLine sender (message params)) # evs @
              [InboundDrop CHANNEL_ID (''dmPolicy='' @ policyName policy) sender]"
    by (rule newEvents_append) (simp add: w3_def e(1) t)
  show ?thesis
    using a n e by (auto simp: w3_def w1_def)
qed

section \<open>Allow-list resolution\<close>

lemma set_filter_map_nonempty:
  "set (filter (\<lambda>e. e \<noteq> []) (map f es)) = f ` set es - {[]}"
  by auto

lemma filter_map_idem:
  assumes "\<And>e. f (f e) = f e"
  shows "filter (\<lambda>e. e \<noteq> []) (map f (filter (\<lambda>e. e \<noteq> []) (map f es))) =
         filter (\<lambda>e. e \<noteq> []) (map f es)"
  by (induction es) (simp_all add: assms)

text \<open>
  Claim C7, as stated, fails: allow-list resolution does not drop duplicates. For the
  configured list \<open>["Foo@Bar.com", " foo@bar.com "]\<close> and an empty store the handler's
  effective allow-list is the two-element list \<open>["foo@bar.com", "foo@bar.com"]\<close>.
\<close>

theorem allow_list_resolution_keeps_duplicates:
  "\<not> distinct (effectiveAllowFrom graphOk
       (Some \<lparr>allowFrom = Some [''Foo@Bar.com'', '' foo@bar.com ''], dmPolicy = None\<rparr>) (Inr []))
   \<and> effectiveAllowFrom graphOk
       (Some \<lparr>allowFrom = Some [''Foo@Bar.com'', '' foo@bar.com ''], dmPolicy = None\<rparr>) (Inr [])
       = [''foo@bar.com'', ''foo@bar.com'']"
  by code_simp

text \<open>
  Claim C7, as amended: allow-list resolution trims and lower-cases every entry and drops
  the empty ones, so that the members of the result are exactly the non-empty normalized
  entries of the configured list and of the store list; the configured entries come first,
  then the store's; duplicates are kept in the list and vanish only in the membership set,
  which for \<open>["Foo@Bar.com", " foo@bar.com "]\<close> and an empty store is \<open>{"foo@bar.com"}\<close>;
  and resolving the result again (as the configured list, with an empty store) gives the
  same list, whenever trimming and lower-casing an already trimmed and lower-cased string
  leaves it unchanged. The statement holds for every pair of builtins \<open>toLowerCase\<close> and
  \<open>trim\<close>; only the example is evaluated on 7-bit text.
\<close>

theorem allow_list_resolution:
  "set (effectiveAllowFrom env m365 storeRead) =
     (\<lambda>e. toLowerCase env (trim env e)) `
       (set (case Option.bind m365 allowFrom of None \<Rightarrow> [] | Some es \<Rightarrow> es) \<union> set (storeAllowFrom storeRead)) - {[]}
   \<and> effectiveAllowFrom env m365 storeRead =
       effectiveAllowFrom env m365 (Inr []) @ effectiveAllowFrom env None storeRead
   \<and> set (effectiveAllowFrom graphOk
         (Some \<lparr>allowFrom = Some [''Foo@Bar.com'', '' foo@bar.com ''], dmPolicy = None\<rparr>) (Inr []))
       = {''foo@bar.com''}
   \<and> ((\<forall>e. toLowerCase env (trim env (toLowerCase env (trim env e))) = toLowerCase env (trim env e)) \<longrightarrow>
        effectiveAllowFrom env
          (Some \<lparr>allowFrom = Some (effectiveAllowFrom env m365 storeRead), dmPolicy = p\<rparr>) (Inr [])
        = effectiveAllowFrom env m365 storeRead)"
proof -
  have ex: "effectiveAllowFrom graphOk
       (Some \<lparr>allowFrom = Some [''Foo@Bar.com'', '' foo@bar.com ''], dmPolicy = None\<rparr>) (Inr [])
       = [''foo@bar.com'', ''foo@bar.com'']"
    by code_simp
  have s: "set (effectiveAllowFrom env m365 storeRead) =
     (\<lambda>e. toLowerCase env (trim env e)) `
       (set (case Option.bind m365 allowFrom of None \<Rightarrow> [] | Some es \<Rightarrow> es) \<union> set (storeAllowFrom storeRead)) - {[]}"
    unfolding effectiveAllowFrom_def configAllowFrom_def storeAllowList_def set_append
      set_filter_map_nonempty
    by blast
  have o: "effectiveAllowFrom env m365 storeRead =
       effectiveAllowFrom env m365 (Inr []) @ effectiveAllowFrom env None storeRead"
    by (simp add: effectiveAllowFrom_def configAllowFrom_def storeAllowList_def storeAllowFrom_def)
  have i: "effectiveAllowFrom env
          (Some \<lparr>allowFrom = Some (effectiveAllowFrom env m365 storeRead), dmPolicy = p\<rparr>) (Inr [])
        = effectiveAllowFrom env m365 storeRead"
    if n: "\<forall>e. toLowerCase env (trim env (toLowerCase env (trim env e))) = toLowerCase env (trim env e)"
  proof -
    have f: "\<And>e. (\<lambda>e. toLowerCase env (trim env e)) ((\<lambda>e. toLowerCase env (trim env e)) e) =
                 (\<lambda>e. toLowerCase env (trim env e)) e"
      using n by simp
    show ?thesis
      by (simp add: effectiveAllowFrom_def configAllowFrom_def storeAllowList_def storeAllowFrom_def
          filter_map_idem [of "\<lambda>e. toLowerCase env (trim env e)", OF f])
  qed
  show ?thesis using s o i by (simp add: ex)
qed

text \<open>
  The theorem on 7-bit text, where the builtins are idempotent: resolving
  \<open>["Foo@Bar.com", " foo@bar.com "]\<close> twice gives what resolving it once gives.
\<close>

theorem allow_list_resolution_witness:
  "(\<forall>e. toLowerCase graphOk (trim graphOk (toLowerCase graphOk (trim graphOk e))) =
        toLowerCase graphOk (trim graphOk e))
   \<and> effectiveAllowFrom graphOk
        (Some \<lparr>allowFrom = Some (effectiveAllowFrom graphOk
           (Some \<lparr>allowFrom = Some [''Foo@Bar.com'', '' foo@bar.com ''], dmPolicy = None\<rparr>) (Inr [])),
          dmPolicy = None\<rparr>) (Inr [])
      = [''foo@bar.com'', ''foo@bar.com'']"
proof -
  have n: "\<forall>e. toLowerCase graphOk (trim graphOk (toLowerCase graphOk (trim graphOk e))) =
        toLowerCase graphOk (trim graphOk e)"
    by (simp add: graphOk_def asciiNormalize_idem)
  have ex: "effectiveAllowFrom graphOk
       (Some \<lparr>allowFrom = Some [''Foo@Bar.com'', '' foo@bar.com ''], dmPolicy = None\<rparr>) (Inr [])
       = [''foo@bar.com'', ''foo@bar.com'']"
    by code_simp
  have i: "effectiveAllowFrom graphOk
        (Some \<lparr>allowFrom = Some (effectiveAllowFrom graphOk
           (Some \<lparr>allowFrom = Some [''Foo@Bar.com'', '' foo@bar.com ''], dmPolicy = None\<rparr>) (Inr [])),
          dmPolicy = None\<rparr>) (Inr [])
      = effectiveAllowFrom graphOk
           (Some \<lparr>allowFrom = Some [''Foo@Bar.com'', '' foo@bar.com ''], dmPolicy = None\<rparr>) (Inr [])"
    using allow_list_resolution
      [of graphOk "Some \<lparr>allowFrom = Some [''Foo@Bar.com'', '' foo@bar.com ''], dmPolicy = None\<rparr>"
        "Inr []" None] n
    by blast
  show ?thesis using n i unfolding ex by (intro conjI)
qed

section \<open>Store failures and the default policy\<close>

lemma admitInbound_cfg [simp]:
  "admitInbound core env (params\<lparr>cfg := c\<rparr>) sender w = admitInbound core env params sender w"
  by (simp add: admitInbound_def)

lemma admitInbound_store [simp]:
  "admitInbound (core\<lparr>readAllowFromStore := rd\<rparr>) env params sender w = admitInbound core env params sender w"
  by (simp add: admitInbound_def recordInboundSession_def dispatchReplyWithBufferedBlockDispatcher_def)

lemma upsertPairingRequest_store:
  "upsertPairingRequest (core\<lparr>readAllowFromStore := rd\<rparr>) ch sid nm w = upsertPairingRequest core ch sid nm w"
  by (simp add: upsertPairingRequest_def split: option.splits)

lemma sendPairingReply_store:
  "sendPairingReply (core\<lparr>readAllowFromStore := rd\<rparr>) env msg sender c w = sendPairingReply core env msg sender c w"
  by (simp add: sendPairingReply_def)

lemma requestPairing_store [simp]:
  "requestPairing (core\<lparr>readAllowFromStore := rd\<rparr>) env msg sender w = requestPairing core env msg sender w"
  by (simp only: requestPairing_def upsertPairingRequest_store sendPairingReply_store)

lemma handle_total: "\<exists>w'. handleIncomingMail (Some core) env params w = Inr w'"
  by (simp add: handleIncomingMail_def getMicrosoft365Runtime_def Let_def split: option.splits)

lemma handle_depends_on_policy_and_list:
  assumes "effectiveDmPolicy (microsoft365 (cfg params')) = effectiveDmPolicy (microsoft365 (cfg params))"
    and "effectiveAllowFrom env (microsoft365 (cfg params')) (readAllowFromStore core' CHANNEL_ID) =
         effectiveAllowFrom env (microsoft365 (cfg params)) (readAllowFromStore core CHANNEL_ID)"
    and "message params' = message params"
    and "\<And>sender w. admitInbound core' env params' sender w = admitInbound core env params sender w"
    and "\<And>sender w. requestPairing core' env (message params) sender w = requestPairing core env (message params) sender w"
  shows "handleIncomingMail (Some core') env params' w = handleIncomingMail (Some core) env params w"
  using assms
  by (simp add: handleIncomingMail_def getMicrosoft365Runtime_def Let_def split: option.splits)

text \<open>
  Claim C8: a failed read of the allow-from store is never fatal. The effective allow-list
  is then the normalized configured list alone, the handler still returns normally, it does
  exactly what it does when the store read returns the empty list, and a sender on the
  configured list is admitted.
\<close>

theorem store_failure_degrades_to_config:
  assumes "readAllowFromStore core CHANNEL_ID = Inl err"
  shows "effectiveAllowFrom env (microsoft365 (cfg params)) (readAllowFromStore core CHANNEL_ID) =
           configAllowFrom env (microsoft365 (cfg params))
       \<and> (\<exists>w'. handleIncomingMail (Some core) env params w = Inr w')
       \<and> handleIncomingMail (Some core) env params w =
           handleIncomingMail (Some (core\<lparr>readAllowFromStore := (\<lambda>ch. Inr [])\<rparr>)) env params w
       \<and> (\<forall>sender. fromEmail env (message params) = Some sender \<and> sender \<noteq> [] \<and>
                    sender \<in> set (configAllowFrom env (microsoft365 (cfg params))) \<longrightarrow>
             handleIncomingMail (Some core) env params w =
               Inr (admitInbound core env params sender
                      (emit (LogInfo (incomingLine sender (message params))) w)))"
proof -
  have l: "effectiveAllowFrom env (microsoft365 (cfg params)) (readAllowFromStore core CHANNEL_ID) =
           configAllowFrom env (microsoft365 (cfg params))"
    using assms by (simp add: effectiveAllowFrom_def storeAllowList_def storeAllowFrom_def)
  have l': "effectiveAllowFrom env (microsoft365 (cfg params)) (Inr []) =
            effectiveAllowFrom env (microsoft365 (cfg params)) (readAllowFromStore core CHANNEL_ID)"
    using assms by (simp add: effectiveAllowFrom_def storeAllowList_def storeAllowFrom_def)
  have e: "handleIncomingMail (Some (core\<lparr>readAllowFromStore := (\<lambda>ch. Inr [])\<rparr>)) env params w =
           handleIncomingMail (Some core) env params w"
    by (rule handle_depends_on_policy_and_list) (simp_all add: l')
  have a: "handleIncomingMail (Some core) env params w =
               Inr (admitInbound core env params sender
                      (emit (LogInfo (incomingLine sender (message params))) w))"
    if "fromEmail env (message params) = Some sender" "sender \<noteq> []"
       "sender \<in> set (configAllowFrom env (microsoft365 (cfg params)))" for sender
    using that by (intro handle_admitted) (simp_all add: l senderAllowed_iff)
  show ?thesis using l e a handle_total [of core env params w] by simp
qed

text \<open>The theorem at a sender on the configured list, with a store whose read fails.\<close>

theorem store_failure_degrades_to_config_witness:
  "readAllowFromStore (quietRuntime\<lparr>readAllowFromStore := (\<lambda>ch. Inl ''EIO'')\<rparr>) CHANNEL_ID = Inl ''EIO''
   \<and> effectiveAllowFrom graphOk (microsoft365 (configWith (Some PolicyAllowlist) ['' Bob@X.com '']))
        (readAllowFromStore (quietRuntime\<lparr>readAllowFromStore := (\<lambda>ch. Inl ''EIO'')\<rparr>) CHANNEL_ID) =
      configAllowFrom graphOk (microsoft365 (configWith (Some PolicyAllowlist) ['' Bob@X.com '']))
   \<and> handleIncomingMail (Some (quietRuntime\<lparr>readAllowFromStore := (\<lambda>ch. Inl ''EIO'')\<rparr>)) graphOk
        \<lparr>message = mailFrom ''m1'' ''bob@x.com'', cfg = configWith (Some PolicyAllowlist) ['' Bob@X.com ''], accountId = ''default''\<rparr>
        freshWorld =
      Inr (admitInbound (quietRuntime\<lparr>readAllowFromStore := (\<lambda>ch. Inl ''EIO'')\<rparr>) graphOk
        \<lparr>message = mailFrom ''m1'' ''bob@x.com'', cfg = configWith (Some PolicyAllowlist) ['' Bob@X.com ''], accountId = ''default''\<rparr>
        ''bob@x.com''
        (emit (LogInfo (incomingLine ''bob@x.com'' (mailFrom ''m1'' ''bob@x.com''))) freshWorld))"
proof -
  let ?core = "quietRuntime\<lparr>readAllowFromStore := (\<lambda>ch. Inl ''EIO'')\<rparr>"
  let ?p = "\<lparr>message = mailFrom ''m1'' ''bob@x.com'', cfg = configWith (Some PolicyAllowlist) ['' Bob@X.com ''], accountId = ''default''\<rparr>"
  have h: "readAllowFromStore ?core CHANNEL_ID = Inl ''EIO''" by simp
  have s: "fromEmail graphOk (message ?p) = Some ''bob@x.com''" by code_simp
  have m: "''bob@x.com'' \<in> set (configAllowFrom graphOk (microsoft365 (cfg ?p)))" by code_simp
  note t = store_failure_degrades_to_config [OF h, where env = graphOk and params = ?p and w = freshWorld]
  have a: "effectiveAllowFrom graphOk (microsoft365 (cfg ?p)) (readAllowFromStore ?core CHANNEL_ID) =
      configAllowFrom graphOk (microsoft365 (cfg ?p))"
    by (rule t [THEN conjunct1])
  have b: "handleIncomingMail (Some ?core) graphOk ?p freshWorld =
      Inr (admitInbound ?core graphOk ?p ''bob@x.com''
        (emit (LogInfo (incomingLine ''bob@x.com'' (message ?p))) freshWorld))"
    using t [THEN conjunct2, THEN conjunct2, THEN conjunct2] s m by blast
  show ?thesis using h a b by simp
qed

text \<open>
  Claim C10: a configuration that does not set \<open>dmPolicy\<close> is handled as \<open>pairing\<close>. The
  effective policy is \<open>pairing\<close> when the field or the whole channel section is absent, the
  handler does on every mail exactly what it does under an explicit \<open>dmPolicy = "pairing"\<close>,
  and \<open>collectWarnings\<close> uses the same default: it gives no warning, as for \<open>pairing\<close>.
\<close>

theorem unset_policy_is_pairing:
  "effectiveDmPolicy None = PolicyPairing
   \<and> effectiveDmPolicy (Some (m365\<lparr>dmPolicy := None\<rparr>)) = PolicyPairing
   \<and> handleIncomingMail runtime env (params\<lparr>cfg := \<lparr>microsoft365 = Some (m365\<lparr>dmPolicy := None\<rparr>)\<rparr>\<rparr>) w =
     handleIncomingMail runtime env (params\<lparr>cfg := \<lparr>microsoft365 = Some (m365\<lparr>dmPolicy := Some PolicyPairing\<rparr>)\<rparr>\<rparr>) w
   \<and> handleIncomingMail runtime env (params\<lparr>cfg := \<lparr>microsoft365 = None\<rparr>\<rparr>) w =
     handleIncomingMail runtime env
       (params\<lparr>cfg := \<lparr>microsoft365 = Some \<lparr>allowFrom = None, dmPolicy = Some PolicyPairing\<rparr>\<rparr>\<rparr>) w
   \<and> collectWarnings \<lparr>microsoft365 = Some (m365\<lparr>dmPolicy := None\<rparr>)\<rparr> =
     collectWarnings \<lparr>microsoft365 = Some (m365\<lparr>dmPolicy := Some PolicyPairing\<rparr>)\<rparr>
   \<and> collectWarnings \<lparr>microsoft365 = Some (m365\<lparr>dmPolicy := None\<rparr>)\<rparr> = []
   \<and> collectWarnings \<lparr>microsoft365 = None\<rparr> = []"
proof -
  have p: "effectiveDmPolicy None = PolicyPairing"
    "effectiveDmPolicy (Some (m365\<lparr>dmPolicy := None\<rparr>)) = PolicyPairing"
    "effectiveDmPolicy (Some (m365\<lparr>dmPolicy := Some PolicyPairing\<rparr>)) = PolicyPairing"
    "effectiveDmPolicy (Some \<lparr>allowFrom = None, dmPolicy = Some PolicyPairing\<rparr>) = PolicyPairing"
    by (simp_all add: effectiveDmPolicy_def)
  have h1: "handleIncomingMail runtime env (params\<lparr>cfg := \<lparr>microsoft365 = Some (m365\<lparr>dmPolicy := None\<rparr>)\<rparr>\<rparr>) w =
     handleIncomingMail runtime env (params\<lparr>cfg := \<lparr>microsoft365 = Some (m365\<lparr>dmPolicy := Some PolicyPairing\<rparr>)\<rparr>\<rparr>) w"
  proof (cases runtime)
    case None
    then show ?thesis by (simp add: handleIncomingMail_def getMicrosoft365Runtime_def)
  next
    case (Some core)
    show ?thesis unfolding Some
      by (rule handle_depends_on_policy_and_list)
        (simp_all add: p effectiveAllowFrom_def configAllowFrom_def)
  qed
  have h2: "handleIncomingMail runtime env (params\<lparr>cfg := \<lparr>microsoft365 = None\<rparr>\<rparr>) w =
     handleIncomingMail runtime env
       (params\<lparr>cfg := \<lparr>microsoft365 = Some \<lparr>allowFrom = None, dmPolicy = Some PolicyPairing\<rparr>\<rparr>\<rparr>) w"
  proof (cases runtime)
    case None
    then show ?thesis by (simp add: handleIncomingMail_def getMicrosoft365Runtime_def)
  next
    case (Some core)
    show ?thesis unfolding Some
      by (rule handle_depends_on_policy_and_list)
        (simp_all add: p effectiveAllowFrom_def configAllowFrom_def)
  qed
  have c: "collectWarnings \<lparr>microsoft365 = Some (m365\<lparr>dmPolicy := None\<rparr>)\<rparr> = []"
    "collectWarnings \<lparr>microsoft365 = Some (m365\<lparr>dmPolicy := Some PolicyPairing\<rparr>)\<rparr> = []"
    "collectWarnings \<lparr>microsoft365 = None\<rparr> = []"
    by (simp_all add: collectWarnings_def)
  show ?thesis using p h1 h2 c by simp
qed

section \<open>The policy check\<close>

text \<open>
  Claim C9, as stated, fails: the handler does not always return normally on a mail with no
  sender address. It fetches the plugin runtime before it looks at the sender, and while the
  runtime is not set that call raises.
\<close>

theorem missing_sender_raises_without_runtime:
  "handleIncomingMail None graphOk
     \<lparr>message = mailWithoutSender, cfg = configWith None [], accountId = ''default''\<rparr> freshWorld =
   Inl ''Microsoft365 runtime not initialized''"
  by (rule handle_without_runtime)

text \<open>
  Claim C9, as amended: once the plugin runtime is set, a mail with no sender address (absent
  or empty) is logged and dropped. The handler returns normally; the warning is the only
  thing it adds to the trace, so no pairing request is upserted, no reply is sent, no
  session is recorded and the agent is not invoked, and the pairing and session stores are
  unchanged.
\<close>

theorem missing_sender_is_dropped:
  assumes "\<not> truthy (fromEmail env (message params))"
  shows "\<exists>w'. handleIncomingMail (Some core) env params w = Inr w' \<and>
           trace w' = trace w @ [LogWarn ''microsoft365: dropping message with no sender address''] \<and>
           pairingRequests w' = pairingRequests w \<and> sessions w' = sessions w"
  using handle_no_sender [OF assms] by simp

text \<open>The theorem at a mail whose \<open>from\<close> is absent.\<close>

theorem missing_sender_is_dropped_witness:
  "\<not> truthy (fromEmail graphOk (message \<lparr>message = mailWithoutSender, cfg = configWith None [], accountId = ''default''\<rparr>)) \<and>
   (\<exists>w'. handleIncomingMail (Some quietRuntime) graphOk
            \<lparr>message = mailWithoutSender, cfg = configWith None [], accountId = ''default''\<rparr> freshWorld = Inr w' \<and>
          trace w' = trace freshWorld @ [LogWarn ''microsoft365: dropping message with no sender address''] \<and>
          pairingRequests w' = pairingRequests freshWorld \<and> sessions w' = sessions freshWorld)"
proof -
  have h: "\<not> truthy (fromEmail graphOk (message \<lparr>message = mailWithoutSender, cfg = configWith None [], accountId = ''default''\<rparr>))"
    by (simp add: truthy_def fromEmail_def fromAddress_def mailWithoutSender_def)
  show ?thesis
    using h missing_sender_is_dropped [OF h, where core = quietRuntime and w = freshWorld] by simp
qed

text \<open>
  Claim C5: under policy \<open>open\<close> every mail with a non-empty sender address is admitted. The
  handler goes straight to the admitted part, whatever the configured entries and the store
  hold (both are still read, but replacing them changes nothing); the agent is dispatched,
  no pairing request is upserted, the pairing store is unchanged and no drop record is
  emitted.
\<close>

theorem open_policy_admits_every_sender:
  assumes "fromEmail env (message params) = Some sender" and "sender \<noteq> []"
    and "microsoft365 (cfg params) = Some m365" and "dmPolicy m365 = Some PolicyOpen"
  shows "handleIncomingMail (Some core) env params w =
           Inr (admitInbound core env params sender (emit (LogInfo (incomingLine sender (message params))) w))
       \<and> handleIncomingMail (Some (core\<lparr>readAllowFromStore := storeRead\<rparr>)) env
            (params\<lparr>cfg := \<lparr>microsoft365 = Some (m365\<lparr>allowFrom := entries\<rparr>)\<rparr>\<rparr>) w =
          handleIncomingMail (Some core) env params w
       \<and> (\<exists>w'. handleIncomingMail (Some core) env params w = Inr w' \<and>
            list_ex isAgentDispatch (newEvents w w') \<and>
            \<not> list_ex isUpsert (newEvents w w') \<and>
            \<not> list_ex isInboundDrop (newEvents w w') \<and>
            pairingRequests w' = pairingRequests w)"
proof -
  have pol: "effectiveDmPolicy (microsoft365 (cfg params)) = PolicyOpen"
    using assms by (simp add: effectiveDmPolicy_def)
  have a: "handleIncomingMail (Some core) env params w =
           Inr (admitInbound core env params sender (emit (LogInfo (incomingLine sender (message params))) w))"
    using handle_admitted [OF assms(1,2)] pol by simp
  have pol': "effectiveDmPolicy (microsoft365 (cfg (params\<lparr>cfg := \<lparr>microsoft365 = Some (m365\<lparr>allowFrom := entries\<rparr>)\<rparr>\<rparr>))) = PolicyOpen"
    using assms by (simp add: effectiveDmPolicy_def)
  have "handleIncomingMail (Some (core\<lparr>readAllowFromStore := storeRead\<rparr>)) env
            (params\<lparr>cfg := \<lparr>microsoft365 = Some (m365\<lparr>allowFrom := entries\<rparr>)\<rparr>\<rparr>) w =
        Inr (admitInbound (core\<lparr>readAllowFromStore := storeRead\<rparr>) env
            (params\<lparr>cfg := \<lparr>microsoft365 = Some (m365\<lparr>allowFrom := entries\<rparr>)\<rparr>\<rparr>) sender
            (emit (LogInfo (incomingLine sender (message params))) w))"
    using handle_admitted [where params = "params\<lparr>cfg := \<lparr>microsoft365 = Some (m365\<lparr>allowFrom := entries\<rparr>)\<rparr>\<rparr>"
        and sender = sender and core = "core\<lparr>readAllowFromStore := storeRead\<rparr>" and env = env and w = w]
      assms(1,2) pol'
    by simp
  then have b: "handleIncomingMail (Some (core\<lparr>readAllowFromStore := storeRead\<rparr>)) env
            (params\<lparr>cfg := \<lparr>microsoft365 = Some (m365\<lparr>allowFrom := entries\<rparr>)\<rparr>\<rparr>) w =
          handleIncomingMail (Some core) env params w"
    using a by simp
  obtain w' pre ctx post where r:
    "handleIncomingMail (Some core) env params w = Inr w'"
    "newEvents w w' = LogInfo (incomingLine sender (message params)) # pre @ AgentDispatch ctx # post"
    "list_all admitEvent pre" "list_all admitEvent post" "pairingRequests w' = pairingRequests w"
    using admitted_run [OF assms(1,2), where core = core and w = w] pol by auto
  have c: "list_ex isAgentDispatch (newEvents w w') \<and> \<not> list_ex isUpsert (newEvents w w') \<and>
           \<not> list_ex isInboundDrop (newEvents w w')"
    unfolding r(2) using admitEvents_clean [OF r(3)] admitEvents_clean [OF r(4)] by simp
  show ?thesis using a b c r(1,5) by auto
qed

text \<open>The theorem at a mail from \<open>Anyone@X.com\<close> with empty allow-lists.\<close>

theorem open_policy_admits_every_sender_witness:
  "fromEmail graphOk (message \<lparr>message = mailFrom ''m1'' ''Anyone@X.com'', cfg = configWith (Some PolicyOpen) [], accountId = ''default''\<rparr>)
     = Some ''anyone@x.com''
   \<and> ''anyone@x.com'' \<noteq> []
   \<and> microsoft365 (cfg \<lparr>message = mailFrom ''m1'' ''Anyone@X.com'', cfg = configWith (Some PolicyOpen) [], accountId = ''default''\<rparr>)
     = Some \<lparr>allowFrom = Some [], dmPolicy = Some PolicyOpen\<rparr>
   \<and> dmPolicy \<lparr>allowFrom = Some [], dmPolicy = Some PolicyOpen\<rparr> = Some PolicyOpen
   \<and> (\<exists>w'. handleIncomingMail (Some quietRuntime) graphOk
         \<lparr>message = mailFrom ''m1'' ''Anyone@X.com'', cfg = configWith (Some PolicyOpen) [], accountId = ''default''\<rparr>
         freshWorld = Inr w' \<and>
        list_ex isAgentDispatch (newEvents freshWorld w') \<and>
        \<not> list_ex isUpsert (newEvents freshWorld w') \<and>
        \<not> list_ex isInboundDrop (newEvents freshWorld w') \<and>
        pairingRequests w' = pairingRequests freshWorld)"
proof -
  have h1: "fromEmail graphOk (message \<lparr>message = mailFrom ''m1'' ''Anyone@X.com'', cfg = configWith (Some PolicyOpen) [], accountId = ''default''\<rparr>)
     = Some ''anyone@x.com''"
    by code_simp
  have h2: "''anyone@x.com'' \<noteq> []" by simp
  have h3: "microsoft365 (cfg \<lparr>message = mailFrom ''m1'' ''Anyone@X.com'', cfg = configWith (Some PolicyOpen) [], accountId = ''default''\<rparr>)
     = Some \<lparr>allowFrom = Some [], dmPolicy = Some PolicyOpen\<rparr>"
    by (simp add: configWith_def)
  have h4: "dmPolicy \<lparr>allowFrom = Some [], dmPolicy = Some PolicyOpen\<rparr> = Some PolicyOpen" by simp
  have c: "\<exists>w'. handleIncomingMail (Some quietRuntime) graphOk
         \<lparr>message = mailFrom ''m1'' ''Anyone@X.com'', cfg = configWith (Some PolicyOpen) [], accountId = ''default''\<rparr>
         freshWorld = Inr w' \<and>
        list_ex isAgentDispatch (newEvents freshWorld w') \<and>
        \<not> list_ex isUpsert (newEvents freshWorld w') \<and>
        \<not> list_ex isInboundDrop (newEvents freshWorld w') \<and>
        pairingRequests w' = pairingRequests freshWorld"
    by (rule open_policy_admits_every_sender [OF h1 h2 h3 h4, THEN conjunct2, THEN conjunct2])
  show ?thesis by (intro conjI h1 h2 h3 h4 c)
qed

text \<open>
  Claim C1, as stated, fails: under \<open>pairing\<close> the wildcard entry alone admits a sender. With
  the configured list \<open>["*"]\<close>, an empty store and policy \<open>pairing\<close>, a mail from
  \<open>new@x.com\<close>, which is not on the effective allow-list, is marked as read, its session is
  recorded and the agent is dispatched.
\<close>

theorem wildcard_admits_under_pairing:
  "''new@x.com'' \<notin> set (effectiveAllowFrom graphOk (microsoft365 (configWith (Some PolicyPairing) [''*'']))
                          (readAllowFromStore quietRuntime CHANNEL_ID))
   \<and> handleIncomingMail (Some quietRuntime) graphOk
       \<lparr>message = mailFrom ''m1'' ''new@x.com'', cfg = configWith (Some PolicyPairing) [''*''],
        accountId = ''default''\<rparr> freshWorld =
     Inr \<lparr>pairingRequests = [], sessions = [(''new@x.com'', 1)],
          trace = [LogInfo ''Incoming email from new@x.com: hi'',
                   MarkAsRead ''m1'' None,
                   RecordInboundSession ''new@x.com'' None,
                   AgentDispatch \<lparr>From = ''microsoft365:new@x.com'', To = ''microsoft365:default'',
                     SessionKey = Some ''new@x.com'', AccountId = ''default'', SenderName = None,
                     SenderId = ''new@x.com'', MessageSid = ''m1'', Timestamp = 1\<rparr>]\<rparr>"
  by code_simp

text \<open>
  Claim C1, as amended: under \<open>pairing\<close> a mail whose sender address is non-empty and has no
  surrounding white space is admitted (the agent is dispatched) if and only if the
  normalized sender identity, the address trimmed and lower-cased, is an entry of the
  effective allow-list or the wildcard \<open>*\<close> is; otherwise the mail is dropped: the drop record
  is emitted and the agent is not dispatched. Nothing is said of an address with surrounding
  white space.
\<close>

theorem pairing_admits_listed_or_wildcard:
  assumes "fromAddress (message params) = Some a"
    and "trim env a = a"
    and "toLowerCase env a \<noteq> []"
    and "effectiveDmPolicy (microsoft365 (cfg params)) = PolicyPairing"
  shows "\<exists>w'. handleIncomingMail (Some core) env params w = Inr w' \<and>
     (list_ex isAgentDispatch (newEvents w w') \<longleftrightarrow>
        toLowerCase env (trim env a) \<in>
          set (effectiveAllowFrom env (microsoft365 (cfg params)) (readAllowFromStore core CHANNEL_ID)) \<or>
        ''*'' \<in> set (effectiveAllowFrom env (microsoft365 (cfg params)) (readAllowFromStore core CHANNEL_ID))) \<and>
     (list_ex isInboundDrop (newEvents w w') \<longleftrightarrow>
        \<not> (toLowerCase env (trim env a) \<in>
             set (effectiveAllowFrom env (microsoft365 (cfg params)) (readAllowFromStore core CHANNEL_ID)) \<or>
           ''*'' \<in> set (effectiveAllowFrom env (microsoft365 (cfg params)) (readAllowFromStore core CHANNEL_ID))))"
proof -
  define sender where "sender = toLowerCase env a"
  have fe: "fromEmail env (message params) = Some sender"
    by (simp add: fromEmail_def assms(1) sender_def)
  have ne: "sender \<noteq> []" using assms(3) by (simp add: sender_def)
  have nid: "toLowerCase env (trim env a) = sender" by (simp add: assms(2) sender_def)
  show ?thesis
  proof (cases "senderAllowed (effectiveAllowFrom env (microsoft365 (cfg params)) (readAllowFromStore core CHANNEL_ID)) sender")
    case True
    obtain w' pre ctx post where r:
      "handleIncomingMail (Some core) env params w = Inr w'"
      "newEvents w w' = LogInfo (incomingLine sender (message params)) # pre @ AgentDispatch ctx # post"
      "list_all admitEvent pre" "list_all admitEvent post"
      using admitted_run [OF fe ne, where core = core and w = w] True by auto
    have "list_ex isAgentDispatch (newEvents w w') \<and> \<not> list_ex isInboundDrop (newEvents w w')"
      unfolding r(2) using admitEvents_clean [OF r(3)] admitEvents_clean [OF r(4)] by simp
    then show ?thesis unfolding nid using r(1) True by (auto simp: senderAllowed_iff)
  next
    case False
    obtain w' evs where r:
      "handleIncomingMail (Some core) env params w = Inr w'"
      "newEvents w w' = LogInfo (incomingLine sender (message params)) # evs @
                [InboundDrop CHANNEL_ID (''dmPolicy='' @ policyName PolicyPairing) sender]"
      "list_all pairingEvent evs"
      using denied_run [OF fe ne assms(4) _ False, where w = w] by auto
    have "\<not> list_ex isAgentDispatch (newEvents w w') \<and> list_ex isInboundDrop (newEvents w w')"
      unfolding r(2) using pairingEvents_clean [OF r(3)] by simp
    then show ?thesis unfolding nid using r(1) False by (auto simp: senderAllowed_iff)
  qed
qed

text \<open>The theorem at a listed sender under the default policy: the mail is admitted.\<close>

theorem pairing_admits_listed_or_wildcard_witness:
  "fromAddress (message \<lparr>message = mailFrom ''m1'' ''New@X.com'', cfg = configWith None [''new@x.com''], accountId = ''default''\<rparr>)
     = Some ''New@X.com''
   \<and> trim graphOk ''New@X.com'' = ''New@X.com''
   \<and> toLowerCase graphOk ''New@X.com'' \<noteq> []
   \<and> effectiveDmPolicy (microsoft365 (cfg \<lparr>message = mailFrom ''m1'' ''New@X.com'', cfg = configWith None [''new@x.com''], accountId = ''default''\<rparr>))
     = PolicyPairing
   \<and> toLowerCase graphOk (trim graphOk ''New@X.com'') = ''new@x.com''
   \<and> (\<exists>w'. handleIncomingMail (Some quietRuntime) graphOk
          \<lparr>message = mailFrom ''m1'' ''New@X.com'', cfg = configWith None [''new@x.com''], accountId = ''default''\<rparr>
          freshWorld = Inr w' \<and>
        list_ex isAgentDispatch (newEvents freshWorld w') \<and>
        \<not> list_ex isInboundDrop (newEvents freshWorld w'))"
proof -
  let ?p = "\<lparr>message = mailFrom ''m1'' ''New@X.com'', cfg = configWith None [''new@x.com''], accountId = ''default''\<rparr>"
  have h1: "fromAddress (message ?p) = Some ''New@X.com''"
    by (simp add: fromAddress_def mailFrom_def)
  have h2: "trim graphOk ''New@X.com'' = ''New@X.com''"
    by code_simp
  have h3: "toLowerCase graphOk ''New@X.com'' \<noteq> []"
    by code_simp
  have h4: "effectiveDmPolicy (microsoft365 (cfg ?p)) = PolicyPairing"
    by (simp add: configWith_def effectiveDmPolicy_def)
  have n: "toLowerCase graphOk (trim graphOk ''New@X.com'') = ''new@x.com''"
    by code_simp
  have m: "toLowerCase graphOk (trim graphOk ''New@X.com'') \<in>
      set (effectiveAllowFrom graphOk (microsoft365 (cfg ?p)) (readAllowFromStore quietRuntime CHANNEL_ID))"
    by code_simp
  have c: "\<exists>w'. handleIncomingMail (Some quietRuntime) graphOk ?p freshWorld = Inr w' \<and>
        list_ex isAgentDispatch (newEvents freshWorld w') \<and>
        \<not> list_ex isInboundDrop (newEvents freshWorld w')"
    using pairing_admits_listed_or_wildcard [OF h1 h2 h3 h4, where core = quietRuntime and w = freshWorld] m
    by blast
  show ?thesis by (intro conjI h1 h2 h3 h4 n c)
qed

text \<open>
  Claim C6, as stated, fails: the drop record and the pairing reply are not the only effects
  of a denied mail. For a mail from \<open>new@x.com\<close> under \<open>pairing\<close> with empty allow-lists, the
  handler also logs the arrival line before the policy check and upserts the pairing request, which
  the pairing store then holds.
\<close>

theorem denied_mail_also_logs_arrival_and_upserts:
  "handleIncomingMail (Some quietRuntime) graphOk
       \<lparr>message = mailFrom ''m1'' ''new@x.com'', cfg = configWith (Some PolicyPairing) [],
        accountId = ''default''\<rparr> freshWorld =
     Inr \<lparr>pairingRequests = [\<lparr>channel = ''microsoft365'', senderIdentity = ''new@x.com'',
                               code' = ''K7Q2'', displayName = None\<rparr>],
          sessions = [],
          trace = [LogInfo ''Incoming email from new@x.com: hi'',
                   UpsertPairingRequest ''microsoft365'' ''new@x.com'' ''K7Q2'' True,
                   ReplyToMail ''m1'' ''Your email address: new@x.com / code K7Q2'' None,
                   InboundDrop ''microsoft365'' ''dmPolicy=pairing'' ''new@x.com'']\<rparr>"
  by code_simp

text \<open>
  Claim C6, as amended: on every deny decision (policy \<open>allowlist\<close> or \<open>pairing\<close>, sender not
  admitted) the drop record with channel \<open>microsoft365\<close>, reason \<open>dmPolicy=<mode>\<close> for the
  active mode and the sender as target is emitted, last. Before it the denied mail leaves the
  arrival line, logged ahead of the policy check, and under \<open>pairing\<close> the events of the pairing flow
  (the upsert, the pairing reply, the report of its failure); under \<open>allowlist\<close> nothing
  else. No mark-as-read, no session write and no agent dispatch occur, and the session store
  is unchanged.
\<close>

theorem denied_mail_effects:
  assumes "fromEmail env (message params) = Some sender" and "sender \<noteq> []"
    and "effectiveDmPolicy (microsoft365 (cfg params)) = policy" and "policy \<noteq> PolicyOpen"
    and "\<not> senderAllowed (effectiveAllowFrom env (microsoft365 (cfg params)) (readAllowFromStore core CHANNEL_ID)) sender"
  shows "\<exists>w' evs.
           handleIncomingMail (Some core) env params w = Inr w' \<and>
           newEvents w w' = LogInfo (incomingLine sender (message params)) # evs @
              [InboundDrop CHANNEL_ID (''dmPolicy='' @ policyName policy) sender] \<and>
           list_all pairingEvent evs \<and> (policy = PolicyAllowlist \<longrightarrow> evs = []) \<and>
           \<not> list_ex isMarkAsRead (newEvents w w') \<and>
           \<not> list_ex isRecordInboundSession (newEvents w w') \<and>
           \<not> list_ex isAgentDispatch (newEvents w w') \<and>
           sessions w' = sessions w"
proof -
  obtain w' evs where r:
    "handleIncomingMail (Some core) env params w = Inr w'"
    "newEvents w w' = LogInfo (incomingLine sender (message params)) # evs @
              [InboundDrop CHANNEL_ID (''dmPolicy='' @ policyName policy) sender]"
    "list_all pairingEvent evs" "policy = PolicyAllowlist \<longrightarrow> evs = []" "sessions w' = sessions w"
    using denied_run [OF assms, where w = w] by auto
  have "\<not> list_ex isMarkAsRead (newEvents w w') \<and>
        \<not> list_ex isRecordInboundSession (newEvents w w') \<and>
        \<not> list_ex isAgentDispatch (newEvents w w')"
    unfolding r(2) using pairingEvents_clean [OF r(3)] by simp
  then show ?thesis using r by blast
qed

text \<open>The theorem at an unlisted sender under \<open>allowlist\<close>: the arrival line and the drop record.\<close>

theorem denied_mail_effects_witness:
  "fromEmail graphOk (message \<lparr>message = mailFrom ''m1'' ''Eve@X.com'', cfg = configWith (Some PolicyAllowlist) [''bob@x.com''], accountId = ''default''\<rparr>)
     = Some ''eve@x.com''
   \<and> ''eve@x.com'' \<noteq> []
   \<and> effectiveDmPolicy (microsoft365 (cfg \<lparr>message = mailFrom ''m1'' ''Eve@X.com'', cfg = configWith (Some PolicyAllowlist) [''bob@x.com''], accountId = ''default''\<rparr>))
     = PolicyAllowlist
   \<and> PolicyAllowlist \<noteq> PolicyOpen
   \<and> \<not> senderAllowed (effectiveAllowFrom graphOk (microsoft365 (cfg \<lparr>message = mailFrom ''m1'' ''Eve@X.com'', cfg = configWith (Some PolicyAllowlist) [''bob@x.com''], accountId = ''default''\<rparr>))
          (readAllowFromStore quietRuntime CHANNEL_ID)) ''eve@x.com''
   \<and> (\<exists>w'. handleIncomingMail (Some quietRuntime) graphOk
          \<lparr>message = mailFrom ''m1'' ''Eve@X.com'', cfg = configWith (Some PolicyAllowlist) [''bob@x.com''], accountId = ''default''\<rparr>
          freshWorld = Inr w' \<and>
        newEvents freshWorld w' =
          [LogInfo (incomingLine ''eve@x.com'' (mailFrom ''m1'' ''Eve@X.com'')),
           InboundDrop CHANNEL_ID (''dmPolicy='' @ policyName PolicyAllowlist) ''eve@x.com''] \<and>
        sessions w' = sessions freshWorld)"
proof -
  let ?p = "\<lparr>message = mailFrom ''m1'' ''Eve@X.com'', cfg = configWith (Some PolicyAllowlist) [''bob@x.com''], accountId = ''default''\<rparr>"
  have h1: "fromEmail graphOk (message ?p) = Some ''eve@x.com''"
    by code_simp
  have h2: "''eve@x.com'' \<noteq> []" by simp
  have h3: "effectiveDmPolicy (microsoft365 (cfg ?p)) = PolicyAllowlist"
    by (simp add: configWith_def effectiveDmPolicy_def)
  have h4: "PolicyAllowlist \<noteq> PolicyOpen" by simp
  have h5: "\<not> senderAllowed (effectiveAllowFrom graphOk (microsoft365 (cfg ?p)) (readAllowFromStore quietRuntime CHANNEL_ID)) ''eve@x.com''"
    by code_simp
  have c: "\<exists>w'. handleIncomingMail (Some quietRuntime) graphOk ?p freshWorld = Inr w' \<and>
        newEvents freshWorld w' =
          [LogInfo (incomingLine ''eve@x.com'' (mailFrom ''m1'' ''Eve@X.com'')),
           InboundDrop CHANNEL_ID (''dmPolicy='' @ policyName PolicyAllowlist) ''eve@x.com''] \<and>
        sessions w' = sessions freshWorld"
    using denied_mail_effects [OF h1 h2 h3 h4 h5, where w = freshWorld]
    by auto
  show ?thesis by (intro conjI h1 h2 h3 h4 h5 c)
qed

section \<open>Normalization of the sender\<close>

lemma normalizeAllowEntry_ascii:
  assumes "toLowerCase env = asciiToLowerCase" and "trim env = asciiTrim"
  shows "normalizeAllowEntry env e = toLowerCase env (trim env e)"
  by (simp add: normalizeAllowEntry_def assms asciiTrim_asciiToLowerCase)

text \<open>
  Claim C3 does not hold of the handler: the sender address is lower-cased but not trimmed,
  while every allow-list entry is trimmed and lower-cased. The address
  \<open>"alice@example.com "\<close> and the configured entry \<open>"alice@example.com"\<close> have the same
  normal form, yet under \<open>allowlist\<close> the handler compares the untrimmed address with the
  entry and drops the mail.
\<close>

theorem sender_address_is_not_trimmed:
  "normalizeAllowEntry graphOk ''alice@example.com '' = normalizeAllowEntry graphOk ''alice@example.com''
   \<and> fromEmail graphOk (mailFrom ''m1'' ''alice@example.com '') = Some ''alice@example.com ''
   \<and> effectiveAllowFrom graphOk (microsoft365 (configWith (Some PolicyAllowlist) [''alice@example.com'']))
        (readAllowFromStore quietRuntime CHANNEL_ID) = [''alice@example.com'']
   \<and> handleIncomingMail (Some quietRuntime) graphOk
        \<lparr>message = mailFrom ''m1'' ''alice@example.com '',
         cfg = configWith (Some PolicyAllowlist) [''alice@example.com''],
         accountId = ''default''\<rparr> freshWorld =
      Inr \<lparr>pairingRequests = [], sessions = [],
           trace = [LogInfo ''Incoming email from alice@example.com : hi'',
                    InboundDrop ''microsoft365'' ''dmPolicy=allowlist'' ''alice@example.com '']\<rparr>"
  by code_simp

section \<open>Reply dispatch\<close>

lemma deliver_with_token:
  assumes "truthy (Option.bind (credentials env) refreshToken)"
  shows "(case deliver env msg f w of
            (None, w') \<Rightarrow> w'
          | (Some err, w') \<Rightarrow> onError err (kind f) w') =
         w\<lparr>trace := trace w @ deliveryOf env msg f\<rparr>
         \<or> trim env (fragmentText f) = []"
  using assms
  by (auto simp: deliver_def deliveryOf_def onError_def emit_def Let_def split: option.splits)

lemma dispatchFragments_trace:
  assumes "truthy (Option.bind (credentials env) refreshToken)"
  shows "dispatchFragments env (deliver env msg) onError fs w =
           w\<lparr>trace := trace w @ concat (map (deliveryOf env msg) fs)\<rparr>"
proof (induction fs arbitrary: w)
  case Nil
  then show ?case by simp
next
  case (Cons f fs)
  show ?case
  proof (cases "trim env (fragmentText f) = []")
    case True
    then show ?thesis using Cons.IH [of w] by (simp add: deliveryOf_def)
  next
    case False
    define w1 where "w1 = (case deliver env msg f w of
            (None, w') \<Rightarrow> w'
          | (Some err, w') \<Rightarrow> onError err (kind f) w')"
    have s: "w1 = w\<lparr>trace := trace w @ deliveryOf env msg f\<rparr>"
      using deliver_with_token [OF assms, where msg = msg and f = f and w = w] False by (simp add: w1_def)
    have "dispatchFragments env (deliver env msg) onError (f # fs) w =
          dispatchFragments env (deliver env msg) onError fs w1"
      using False by (simp add: w1_def split: prod.splits option.splits)
    then show ?thesis using Cons.IH [of w1] by (simp add: s)
  qed
qed

text \<open>
  Claim C4: reply dispatch is ordered and failure-isolated. When the agent emits the
  fragments A, B, C and the reply for B fails, the dispatch leaves in the trace, after the
  agent dispatch, the delivery of A, then the failed reply for B followed by the error
  report tagged with B's kind, then the delivery of C; it returns normally, and a
  non-blank C is replied to after B's failure.
\<close>

theorem dispatch_is_ordered_and_isolated:
  assumes "truthy (Option.bind (credentials env) refreshToken)"
    and "agentReply core ctx = [A, B, C]"
    and "trim env (fragmentText B) \<noteq> []"
    and "replyToMail env (id' msg) (fragmentText B) = Some err"
  shows "trace (dispatchReplyWithBufferedBlockDispatcher env core ctx (deliver env msg) onError w) =
           trace w @ [AgentDispatch ctx] @ deliveryOf env msg A @
             [ReplyToMail (id' msg) (fragmentText B) (Some err),
              LogError (''microsoft365 '' @ kind B @ '' reply failed: '' @ err)] @
             deliveryOf env msg C
       \<and> (trim env (fragmentText C) \<noteq> [] \<longrightarrow>
            hd (deliveryOf env msg C) =
              ReplyToMail (id' msg) (fragmentText C) (replyToMail env (id' msg) (fragmentText C)))
       \<and> pairingRequests (dispatchReplyWithBufferedBlockDispatcher env core ctx (deliver env msg) onError w) =
           pairingRequests w
       \<and> sessions (dispatchReplyWithBufferedBlockDispatcher env core ctx (deliver env msg) onError w) =
           sessions w"
proof -
  have b: "deliveryOf env msg B =
      [ReplyToMail (id' msg) (fragmentText B) (Some err),
       LogError (''microsoft365 '' @ kind B @ '' reply failed: '' @ err)]"
    using assms(3,4) by (simp add: deliveryOf_def)
  have d: "dispatchReplyWithBufferedBlockDispatcher env core ctx (deliver env msg) onError w =
      (emit (AgentDispatch ctx) w)\<lparr>trace := trace (emit (AgentDispatch ctx) w) @
         concat (map (deliveryOf env msg) [A, B, C])\<rparr>"
    unfolding dispatchReplyWithBufferedBlockDispatcher_def assms(2)
    by (rule dispatchFragments_trace [OF assms(1)])
  have c: "trim env (fragmentText C) \<noteq> [] \<longrightarrow>
            hd (deliveryOf env msg C) =
              ReplyToMail (id' msg) (fragmentText C) (replyToMail env (id' msg) (fragmentText C))"
    by (simp add: deliveryOf_def)
  show ?thesis unfolding d using c by (simp add: b)
qed

text \<open>The theorem at three fragments A, B, C and a client whose reply fails for B.\<close>

theorem dispatch_is_ordered_and_isolated_witness:
  "truthy (Option.bind (credentials (graphFailingOn ''B'')) refreshToken)
   \<and> agentReply (quietRuntime\<lparr>agentReply := (\<lambda>ctx. [fragment ''block'' ''A'', fragment ''block'' ''B'', fragment ''final'' ''C''])\<rparr>) someContext
       = [fragment ''block'' ''A'', fragment ''block'' ''B'', fragment ''final'' ''C'']
   \<and> trim (graphFailingOn ''B'') (fragmentText (fragment ''block'' ''B'')) \<noteq> []
   \<and> replyToMail (graphFailingOn ''B'') (id' (mailFrom ''m1'' ''bob@x.com'')) (fragmentText (fragment ''block'' ''B'')) = Some ''503''
   \<and> trace (dispatchReplyWithBufferedBlockDispatcher (graphFailingOn ''B'')
        (quietRuntime\<lparr>agentReply := (\<lambda>ctx. [fragment ''block'' ''A'', fragment ''block'' ''B'', fragment ''final'' ''C''])\<rparr>)
        someContext (deliver (graphFailingOn ''B'') (mailFrom ''m1'' ''bob@x.com'')) onError freshWorld) =
      [AgentDispatch someContext,
       ReplyToMail ''m1'' ''A'' None,
       ReplyToMail ''m1'' ''B'' (Some ''503''),
       LogError ''microsoft365 block reply failed: 503'',
       ReplyToMail ''m1'' ''C'' None]"
proof -
  let ?core = "quietRuntime\<lparr>agentReply := (\<lambda>ctx. [fragment ''block'' ''A'', fragment ''block'' ''B'', fragment ''final'' ''C''])\<rparr>"
  have h1: "truthy (Option.bind (credentials (graphFailingOn ''B'')) refreshToken)"
    by code_simp
  have h2: "agentReply ?core someContext = [fragment ''block'' ''A'', fragment ''block'' ''B'', fragment ''final'' ''C'']"
    by simp
  have h3: "trim (graphFailingOn ''B'') (fragmentText (fragment ''block'' ''B'')) \<noteq> []"
    by code_simp
  have h4: "replyToMail (graphFailingOn ''B'') (id' (mailFrom ''m1'' ''bob@x.com'')) (fragmentText (fragment ''block'' ''B'')) = Some ''503''"
    by code_simp
  have a: "deliveryOf (graphFailingOn ''B'') (mailFrom ''m1'' ''bob@x.com'') (fragment ''block'' ''A'') = [ReplyToMail ''m1'' ''A'' None]"
    by code_simp
  have c: "deliveryOf (graphFailingOn ''B'') (mailFrom ''m1'' ''bob@x.com'') (fragment ''final'' ''C'') = [ReplyToMail ''m1'' ''C'' None]"
    by code_simp
  have i: "id' (mailFrom ''m1'' ''bob@x.com'') = ''m1''" "fragmentText (fragment ''block'' ''B'') = ''B''"
    "kind (fragment ''block'' ''B'') = ''block''" "trace freshWorld = []"
    by (simp_all add: mailFrom_def fragment_def fragmentText_def freshWorld_def)
  have t: "trace (dispatchReplyWithBufferedBlockDispatcher (graphFailingOn ''B'') ?core
        someContext (deliver (graphFailingOn ''B'') (mailFrom ''m1'' ''bob@x.com'')) onError freshWorld) =
      [AgentDispatch someContext,
       ReplyToMail ''m1'' ''A'' None,
       ReplyToMail ''m1'' ''B'' (Some ''503''),
       LogError ''microsoft365 block reply failed: 503'',
       ReplyToMail ''m1'' ''C'' None]"
    using dispatch_is_ordered_and_isolated [OF h1 h2 h3 h4, of freshWorld, THEN conjunct1]
    by (simp add: a c i)
  show ?thesis by (intro conjI h1 h2 h3 h4 t)
qed

section \<open>Repeated mails of an unapproved sender\<close>

lemma sendPairingReply_trace:
  "\<exists>evs. trace (sendPairingReply core env msg sender c w) = trace w @ evs \<and>
         filter isReplyToMail evs = pairingReplyOf core env msg sender c \<and>
         filter isUpsert evs = [] \<and> \<not> list_ex isAgentDispatch evs \<and>
         pairingRequests (sendPairingReply core env msg sender c w) = pairingRequests w"
  by (auto simp: sendPairingReply_def pairingReplyOf_def Let_def split: option.splits)

lemma pairing_first_mail:
  assumes "fromEmail env m = Some sender" and "sender \<noteq> []"
    and "effectiveDmPolicy (microsoft365 c) = PolicyPairing"
    and "\<not> senderAllowed (effectiveAllowFrom env (microsoft365 c) (readAllowFromStore core CHANNEL_ID)) sender"
    and "requestsOf CHANNEL_ID sender w = []"
  shows "\<exists>w' evs r.
           handleIncomingMail (Some core) env \<lparr>message = m, cfg = c, accountId = acct\<rparr> w = Inr w' \<and>
           trace w' = trace w @ evs \<and>
           filter isUpsert evs =
             [UpsertPairingRequest CHANNEL_ID sender (generatePairingCode core (pairingRequests w)) True] \<and>
           filter isReplyToMail evs =
             pairingReplyOf core env m sender (generatePairingCode core (pairingRequests w)) \<and>
           \<not> list_ex isAgentDispatch evs \<and>
           requestsOf CHANNEL_ID sender w' = [r] \<and>
           code' r = generatePairingCode core (pairingRequests w)"
proof -
  define c0 where "c0 = generatePairingCode core (pairingRequests w)"
  define r where "r = \<lparr>channel = CHANNEL_ID, senderIdentity = sender, code' = c0,
                displayName = (if truthy (fromName m) then fromName m else None)\<rparr>"
  define w1 where "w1 = emit (LogInfo (incomingLine sender m)) w"
  define w2 where "w2 = emit (UpsertPairingRequest CHANNEL_ID sender c0 True)
         (w1\<lparr>pairingRequests := pairingRequests w1 @ [r]\<rparr>)"
  define w3 where "w3 = sendPairingReply core env m sender c0 w2"
  define w4 where "w4 = emit (InboundDrop CHANNEL_ID (''dmPolicy='' @ policyName PolicyPairing) sender) w3"
  have q1: "requestsOf CHANNEL_ID sender w1 = []" "pairingRequests w1 = pairingRequests w"
    using assms(5) by (simp_all add: w1_def requestsOf_def)
  have rp: "requestPairing core env m sender w1 = w3"
    unfolding w3_def w2_def r_def c0_def
    using requestPairing_first [OF q1(1), of core env m] by (simp add: q1(2))
  have h: "handleIncomingMail (Some core) env \<lparr>message = m, cfg = c, accountId = acct\<rparr> w = Inr w4"
    using handle_denied [where params = "\<lparr>message = m, cfg = c, accountId = acct\<rparr>" and sender = sender
        and policy = PolicyPairing and core = core and env = env and w = w]
      assms(1-4) rp
    by (simp add: w4_def w1_def)
  obtain evs where e: "trace w3 = trace w2 @ evs"
    "filter isReplyToMail evs = pairingReplyOf core env m sender c0"
    "filter isUpsert evs = []" "\<not> list_ex isAgentDispatch evs"
    "pairingRequests w3 = pairingRequests w2"
    unfolding w3_def using sendPairingReply_trace by blast
  have t: "trace w4 = trace w @ (LogInfo (incomingLine sender m) # UpsertPairingRequest CHANNEL_ID sender c0 True # evs
      @ [InboundDrop CHANNEL_ID (''dmPolicy='' @ policyName PolicyPairing) sender])"
    by (simp add: w4_def e(1) w2_def w1_def)
  have p: "requestsOf CHANNEL_ID sender w4 = [r]"
    using assms(5) by (simp add: requestsOf_def w4_def e(5) w2_def w1_def r_def)
  show ?thesis
    using h t p e(2,3,4) unfolding c0_def [symmetric]
    by (intro exI [of _ w4] exI [of _ "LogInfo (incomingLine sender m) # UpsertPairingRequest CHANNEL_ID sender c0 True # evs
      @ [InboundDrop CHANNEL_ID (''dmPolicy='' @ policyName PolicyPairing) sender]"] exI [of _ r])
      (simp add: r_def)
qed

lemma pairing_repeat_mail:
  assumes "fromEmail env m = Some sender" and "sender \<noteq> []"
    and "effectiveDmPolicy (microsoft365 c) = PolicyPairing"
    and "\<not> senderAllowed (effectiveAllowFrom env (microsoft365 c) (readAllowFromStore core CHANNEL_ID)) sender"
    and "requestsOf CHANNEL_ID sender w = r # rs"
  shows "handleIncomingMail (Some core) env \<lparr>message = m, cfg = c, accountId = acct\<rparr> w =
           Inr (emit (InboundDrop CHANNEL_ID (''dmPolicy='' @ policyName PolicyPairing) sender)
                  (emit (UpsertPairingRequest CHANNEL_ID sender (code' r) False)
                     (emit (LogInfo (incomingLine sender m)) w)))"
proof -
  have q: "requestsOf CHANNEL_ID sender (emit (LogInfo (incomingLine sender m)) w) = r # rs"
    using assms(5) by (simp add: requestsOf_def)
  show ?thesis
    using handle_denied [where params = "\<lparr>message = m, cfg = c, accountId = acct\<rparr>" and sender = sender
        and policy = PolicyPairing and core = core and env = env and w = w]
      assms(1-4) requestPairing_repeat [OF q, of core env m]
    by simp
qed

lemma pairing_repeats:
  assumes "\<forall>m\<in>set ms. fromEmail env m = Some sender" and "sender \<noteq> []"
    and "effectiveDmPolicy (microsoft365 c) = PolicyPairing"
    and "\<not> senderAllowed (effectiveAllowFrom env (microsoft365 c) (readAllowFromStore core CHANNEL_ID)) sender"
    and "requestsOf CHANNEL_ID sender w = r # rs"
  shows "\<exists>w' evs.
           onMails (Some core) env c acct ms w = Inr w' \<and>
           trace w' = trace w @ evs \<and>
           filter isUpsert evs = replicate (length ms) (UpsertPairingRequest CHANNEL_ID sender (code' r) False) \<and>
           filter isReplyToMail evs = [] \<and>
           \<not> list_ex isAgentDispatch evs \<and>
           pairingRequests w' = pairingRequests w"
  using assms(1,5)
proof (induction ms arbitrary: w)
  case Nil
  then show ?case by simp
next
  case (Cons m ms)
  define w1 where "w1 = emit (InboundDrop CHANNEL_ID (''dmPolicy='' @ policyName PolicyPairing) sender)
                  (emit (UpsertPairingRequest CHANNEL_ID sender (code' r) False)
                     (emit (LogInfo (incomingLine sender m)) w))"
  have m: "fromEmail env m = Some sender" using Cons.prems(1) by simp
  have h: "handleIncomingMail (Some core) env \<lparr>message = m, cfg = c, accountId = acct\<rparr> w = Inr w1"
    unfolding w1_def by (rule pairing_repeat_mail [OF m assms(2,3,4) Cons.prems(2)])
  have q: "requestsOf CHANNEL_ID sender w1 = r # rs" "pairingRequests w1 = pairingRequests w"
    using Cons.prems(2) by (simp_all add: requestsOf_def w1_def)
  have t1: "trace w1 = trace w @ [LogInfo (incomingLine sender m),
      UpsertPairingRequest CHANNEL_ID sender (code' r) False,
      InboundDrop CHANNEL_ID (''dmPolicy='' @ policyName PolicyPairing) sender]"
    by (simp add: w1_def)
  obtain w' evs where r: "onMails (Some core) env c acct ms w1 = Inr w'"
    "trace w' = trace w1 @ evs"
    "filter isUpsert evs = replicate (length ms) (UpsertPairingRequest CHANNEL_ID sender (code' r) False)"
    "filter isReplyToMail evs = []" "\<not> list_ex isAgentDispatch evs"
    "pairingRequests w' = pairingRequests w1"
    using Cons.IH [of w1] Cons.prems(1) q(1) by auto
  show ?case
    using h r q(2)
    by (intro exI [of _ w'] exI [of _ "[LogInfo (incomingLine sender m),
      UpsertPairingRequest CHANNEL_ID sender (code' r) False,
      InboundDrop CHANNEL_ID (''dmPolicy='' @ policyName PolicyPairing) sender] @ evs"])
      (simp add: t1)
qed

text \<open>
  Claim C2, as stated, fails: the pairing reply is not always sent. Two mails from
  \<open>new@x.com\<close> under \<open>pairing\<close> with empty allow-lists leave one pairing request but no
  reply at all when the client has no refresh token (the handler skips the reply); and when
  the one reply fails, the failure is logged and the second mail does not send it again.
\<close>

theorem pairing_without_token_sends_no_reply:
  "onMails (Some quietRuntime) graphUnconfigured (configWith (Some PolicyPairing) []) ''default''
     [mailFrom ''m1'' ''new@x.com'', mailFrom ''m2'' ''new@x.com''] freshWorld =
   Inr \<lparr>pairingRequests = [\<lparr>channel = ''microsoft365'', senderIdentity = ''new@x.com'',
                             code' = ''K7Q2'', displayName = None\<rparr>],
        sessions = [],
        trace = [LogInfo ''Incoming email from new@x.com: hi'',
                 UpsertPairingRequest ''microsoft365'' ''new@x.com'' ''K7Q2'' True,
                 InboundDrop ''microsoft365'' ''dmPolicy=pairing'' ''new@x.com'',
                 LogInfo ''Incoming email from new@x.com: hi'',
                 UpsertPairingRequest ''microsoft365'' ''new@x.com'' ''K7Q2'' False,
                 InboundDrop ''microsoft365'' ''dmPolicy=pairing'' ''new@x.com'']\<rparr>
   \<and> onMails (Some quietRuntime) (graphFailingOn ''Your email address: new@x.com / code K7Q2'')
       (configWith (Some PolicyPairing) []) ''default''
       [mailFrom ''m1'' ''new@x.com'', mailFrom ''m2'' ''new@x.com''] freshWorld =
     Inr \<lparr>pairingRequests = [\<lparr>channel = ''microsoft365'', senderIdentity = ''new@x.com'',
                               code' = ''K7Q2'', displayName = None\<rparr>],
          sessions = [],
          trace = [LogInfo ''Incoming email from new@x.com: hi'',
                   UpsertPairingRequest ''microsoft365'' ''new@x.com'' ''K7Q2'' True,
                   ReplyToMail ''m1'' ''Your email address: new@x.com / code K7Q2'' (Some ''503''),
                   LogError ''microsoft365: pairing reply failed for new@x.com: 503'',
                   InboundDrop ''microsoft365'' ''dmPolicy=pairing'' ''new@x.com'',
                   LogInfo ''Incoming email from new@x.com: hi'',
                   UpsertPairingRequest ''microsoft365'' ''new@x.com'' ''K7Q2'' False,
                   InboundDrop ''microsoft365'' ''dmPolicy=pairing'' ''new@x.com'']\<rparr>"
  by code_simp

text \<open>
  Claim C2, as amended: for a sender S under \<open>pairing\<close> that the policy check does not admit and that
  has no pending request, and any number of mails from S handled one after the other before
  approval (the upsert returning the existing code with \<open>created = false\<close> when a request is
  pending): all mails are handled, exactly one pairing request exists for (channel, S)
  afterwards, the first upsert reports \<open>created = true\<close> and every later one reports
  \<open>created = false\<close> with the same code, the agent is never dispatched, and at most one
  pairing reply is attempted: exactly one, for the first mail and carrying that code, when
  the client has a refresh token, and none otherwise.
\<close>

theorem repeated_mails_pair_once:
  assumes "\<forall>m\<in>set (m0 # ms). fromEmail env m = Some sender" and "sender \<noteq> []"
    and "effectiveDmPolicy (microsoft365 c) = PolicyPairing"
    and "\<not> senderAllowed (effectiveAllowFrom env (microsoft365 c) (readAllowFromStore core CHANNEL_ID)) sender"
    and "requestsOf CHANNEL_ID sender w = []"
  shows "\<exists>w'. onMails (Some core) env c acct (m0 # ms) w = Inr w' \<and>
           map code' (requestsOf CHANNEL_ID sender w') = [generatePairingCode core (pairingRequests w)] \<and>
           filter isUpsert (newEvents w w') =
             UpsertPairingRequest CHANNEL_ID sender (generatePairingCode core (pairingRequests w)) True #
             replicate (length ms)
               (UpsertPairingRequest CHANNEL_ID sender (generatePairingCode core (pairingRequests w)) False) \<and>
           filter isReplyToMail (newEvents w w') =
             pairingReplyOf core env m0 sender (generatePairingCode core (pairingRequests w)) \<and>
           length (filter isReplyToMail (newEvents w w')) =
             (if truthy (Option.bind (credentials env) refreshToken) then 1 else 0) \<and>
           \<not> list_ex isAgentDispatch (newEvents w w')"
proof -
  define c0 where "c0 = generatePairingCode core (pairingRequests w)"
  have m0: "fromEmail env m0 = Some sender" and rest: "\<forall>m\<in>set ms. fromEmail env m = Some sender"
    using assms(1) by simp_all
  obtain w1 e1 r where f:
    "handleIncomingMail (Some core) env \<lparr>message = m0, cfg = c, accountId = acct\<rparr> w = Inr w1"
    "trace w1 = trace w @ e1"
    "filter isUpsert e1 = [UpsertPairingRequest CHANNEL_ID sender c0 True]"
    "filter isReplyToMail e1 = pairingReplyOf core env m0 sender c0"
    "\<not> list_ex isAgentDispatch e1"
    "requestsOf CHANNEL_ID sender w1 = [r]" "code' r = c0"
    unfolding c0_def using pairing_first_mail [OF m0 assms(2,3,4,5), where acct = acct] by blast
  obtain w' e2 where g:
    "onMails (Some core) env c acct ms w1 = Inr w'"
    "trace w' = trace w1 @ e2"
    "filter isUpsert e2 = replicate (length ms) (UpsertPairingRequest CHANNEL_ID sender (code' r) False)"
    "filter isReplyToMail e2 = []" "\<not> list_ex isAgentDispatch e2"
    "pairingRequests w' = pairingRequests w1"
    using pairing_repeats [OF rest assms(2,3,4) f(6), where acct = acct] by blast
  have run: "onMails (Some core) env c acct (m0 # ms) w = Inr w'"
    using f(1) g(1) by simp
  have n: "newEvents w w' = e1 @ e2"
    by (rule newEvents_append) (simp add: g(2) f(2))
  have p: "requestsOf CHANNEL_ID sender w' = [r]"
    using f(6) g(6) by (simp add: requestsOf_def)
  have l: "length (pairingReplyOf core env m0 sender c0) =
           (if truthy (Option.bind (credentials env) refreshToken) then 1 else 0)"
    by (simp add: pairingReplyOf_def)
  show ?thesis
    unfolding c0_def [symmetric]
    using run p f(3,4,5,7) g(3,4,5) l by (intro exI [of _ w']) (simp add: n)
qed

text \<open>The theorem at three mails of one sender, written in three spellings of the address.\<close>

theorem repeated_mails_pair_once_witness:
  "fromEmail graphOk (mailFrom ''m1'' ''New@x.com'') = Some ''new@x.com''
   \<and> fromEmail graphOk (mailFrom ''m2'' ''new@x.com'') = Some ''new@x.com''
   \<and> fromEmail graphOk (mailFrom ''m3'' ''NEW@X.COM'') = Some ''new@x.com''
   \<and> ''new@x.com'' \<noteq> []
   \<and> effectiveDmPolicy (microsoft365 (configWith (Some PolicyPairing) [])) = PolicyPairing
   \<and> \<not> senderAllowed (effectiveAllowFrom graphOk (microsoft365 (configWith (Some PolicyPairing) []))
          (readAllowFromStore quietRuntime CHANNEL_ID)) ''new@x.com''
   \<and> requestsOf CHANNEL_ID ''new@x.com'' freshWorld = []
   \<and> (\<exists>w'. onMails (Some quietRuntime) graphOk (configWith (Some PolicyPairing) []) ''default''
               [mailFrom ''m1'' ''New@x.com'', mailFrom ''m2'' ''new@x.com'', mailFrom ''m3'' ''NEW@X.COM'']
               freshWorld = Inr w' \<and>
          map code' (requestsOf CHANNEL_ID ''new@x.com'' w') = [''K7Q2''] \<and>
          filter isUpsert (newEvents freshWorld w') =
            [UpsertPairingRequest CHANNEL_ID ''new@x.com'' ''K7Q2'' True,
             UpsertPairingRequest CHANNEL_ID ''new@x.com'' ''K7Q2'' False,
             UpsertPairingRequest CHANNEL_ID ''new@x.com'' ''K7Q2'' False] \<and>
          length (filter isReplyToMail (newEvents freshWorld w')) = 1 \<and>
          \<not> list_ex isAgentDispatch (newEvents freshWorld w'))"
proof -
  have f1: "fromEmail graphOk (mailFrom ''m1'' ''New@x.com'') = Some ''new@x.com''" by code_simp
  have f2: "fromEmail graphOk (mailFrom ''m2'' ''new@x.com'') = Some ''new@x.com''" by code_simp
  have f3: "fromEmail graphOk (mailFrom ''m3'' ''NEW@X.COM'') = Some ''new@x.com''" by code_simp
  have h1: "\<forall>m\<in>set (mailFrom ''m1'' ''New@x.com'' # [mailFrom ''m2'' ''new@x.com'', mailFrom ''m3'' ''NEW@X.COM'']).
       fromEmail graphOk m = Some ''new@x.com''"
    using f1 f2 f3 by simp
  have h2: "''new@x.com'' \<noteq> []" by simp
  have h3: "effectiveDmPolicy (microsoft365 (configWith (Some PolicyPairing) [])) = PolicyPairing"
    by (simp add: configWith_def effectiveDmPolicy_def)
  have h4: "\<not> senderAllowed (effectiveAllowFrom graphOk (microsoft365 (configWith (Some PolicyPairing) []))
          (readAllowFromStore quietRuntime CHANNEL_ID)) ''new@x.com''"
    by code_simp
  have h5: "requestsOf CHANNEL_ID ''new@x.com'' freshWorld = []"
    by (simp add: requestsOf_def freshWorld_def)
  have k: "generatePairingCode quietRuntime (pairingRequests freshWorld) = ''K7Q2''"
    "truthy (Option.bind (credentials graphOk) refreshToken)"
    by (simp_all add: quietRuntime_def graphOk_def truthy_def)
  have c: "\<exists>w'. onMails (Some quietRuntime) graphOk (configWith (Some PolicyPairing) []) ''default''
               [mailFrom ''m1'' ''New@x.com'', mailFrom ''m2'' ''new@x.com'', mailFrom ''m3'' ''NEW@X.COM'']
               freshWorld = Inr w' \<and>
          map code' (requestsOf CHANNEL_ID ''new@x.com'' w') = [''K7Q2''] \<and>
          filter isUpsert (newEvents freshWorld w') =
            [UpsertPairingRequest CHANNEL_ID ''new@x.com'' ''K7Q2'' True,
             UpsertPairingRequest CHANNEL_ID ''new@x.com'' ''K7Q2'' False,
             UpsertPairingRequest CHANNEL_ID ''new@x.com'' ''K7Q2'' False] \<and>
          length (filter isReplyToMail (newEvents freshWorld w')) = 1 \<and>
          \<not> list_ex isAgentDispatch (newEvents freshWorld w')"
    using repeated_mails_pair_once [OF h1 h2 h3 h4 h5, where acct = "''default''"]
    by (auto simp: k numeral_2_eq_2)
  show ?thesis by (intro conjI f1 f2 f3 h2 h3 h4 h5 c)
qed

end
